theory Spec2Isabelle
  imports Main "HOL-Library.Word"
begin

unbundle bit_operations_syntax

section \<open>SkCustomMesh: specifications and meshes\<close>

text \<open>
  A shallow embedding of \<^verbatim>\<open>src/core/SkCustomMesh.cpp\<close>. \<^verbatim>\<open>size_t\<close> is a 64-bit
  word, whose \<open>+\<close> and \<open>*\<close> wrap. Everything the file takes from headers that are not
  part of the sources (the limits of \<^verbatim>\<open>SkCustomMeshSpecification\<close>, the SkSL compiler,
  the hash primitive, the debug switch) is a field of the environment record \<open>Env\<close>.
\<close>

type_synonym size_t = "64 word"

text \<open>
  \<^verbatim>\<open>SkString\<close> holds a sequence of characters with its length, so it may hold the
  character NUL; \<^verbatim>\<open>size()\<close> and indexing see all of it. \<^verbatim>\<open>c_str()\<close> hands the
  characters to a reader of C strings (\<^verbatim>\<open>append\<close> of a \<^verbatim>\<open>const char*\<close>, the
  \<^verbatim>\<open>%s\<close> of a format, the constructor of \<^verbatim>\<open>std::string\<close>), which stops at the first
  NUL: \<open>c_str\<close> is the text that such a reader gets.
\<close>

type_synonym SkString = string

definition c_str :: "SkString \<Rightarrow> string" where
  "c_str s = takeWhile (\<lambda>c. c \<noteq> CHR 0x00) s"

subsection \<open>Data model\<close>

datatype Attribute_Type =
  Attribute_kFloat | Attribute_kFloat2 | Attribute_kFloat3 | Attribute_kFloat4
| Attribute_kUByte4_unorm

datatype Varying_Type =
  Varying_kFloat | Varying_kFloat2 | Varying_kFloat3 | Varying_kFloat4
| Varying_kHalf | Varying_kHalf2 | Varying_kHalf3 | Varying_kHalf4

record Attribute =
  attr_type :: Attribute_Type
  attr_offset :: size_t
  attr_name :: SkString

record Varying =
  var_type :: Varying_Type
  var_name :: SkString

datatype ColorType = ColorType_kNone | ColorType_kHalf4 | ColorType_kFloat4

datatype SkAlphaType =
  kUnknown_SkAlphaType | kOpaque_SkAlphaType | kPremul_SkAlphaType | kUnpremul_SkAlphaType

text \<open>
  Modelled from the spec: \<^verbatim>\<open>SkColorSpace\<close>, an opaque handle with a stable 64-bit hash.
  \<open>cs_data\<close> stands for whatever else the handle holds.
\<close>

record SkColorSpace =
  cs_data :: nat
  cs_hash :: "64 word"

subsection \<open>The compiled program, as far as this file inspects it\<close>

datatype SkSL_Type =
  SkSL_fVoid | SkSL_fFloat2 | SkSL_fHalf4 | SkSL_fFloat4 | SkSL_other string

record FunctionDeclaration =
  isMain :: bool
  parameters :: "SkSL_Type list"
  returnType :: SkSL_Type

datatype ProgramElement =
  FunctionDefinition FunctionDeclaration
| OtherElement

record Program =
  elements :: "ProgramElement list"
  fSource :: string

datatype ProgramKind = kCustomMeshVertex | kCustomMeshFragment

record Settings =
  fEnforceES2Restrictions :: bool

subsection \<open>Environment\<close>

text \<open>
  The five limits are \<^verbatim>\<open>static constexpr size_t\<close> members of the class.
  \<open>convertProgram\<close> is \<^verbatim>\<open>SkSL::Compiler::convertProgram\<close>: \<open>Inl\<close> carries the
  compiler's \<^verbatim>\<open>errorText()\<close> when it returns no program. \<open>SK_DEBUG\<close> tells whether
  \<^verbatim>\<open>SkASSERT\<close> is compiled in. \<open>hash_fn\<close> is \<^verbatim>\<open>SkOpts::hash_fn\<close> on the bytes it is
  given and a seed; the width of the hash is the type parameter.
\<close>

record (overloaded) 'h Env =
  kMaxAttributes :: size_t
  kMaxVaryings :: size_t
  kMaxStride :: size_t
  kStrideAlignment :: size_t
  kOffsetAlignment :: size_t
  SK_DEBUG :: bool
  convertProgram :: "ProgramKind \<Rightarrow> string \<Rightarrow> Settings \<Rightarrow> string + Program"
  CallsColorTransformIntrinsics :: "Program \<Rightarrow> bool"
  hash_fn :: "8 word list \<Rightarrow> 'h word \<Rightarrow> 'h word"
  MakeSRGB :: SkColorSpace

definition SkIsPow2 :: "size_t \<Rightarrow> bool" where
  "SkIsPow2 v \<longleftrightarrow> v AND (v - 1) = 0"

text \<open>The \<^verbatim>\<open>static_assert\<close>s of \<^verbatim>\<open>check_vertex_offsets_and_stride\<close>.\<close>

definition static_asserts :: "'h Env \<Rightarrow> bool" where
  "static_asserts K \<longleftrightarrow>
     kMaxStride K \<le> 2048 \<and>
     kMaxAttributes K \<le> 8 \<and>
     4 \<le> kStrideAlignment K \<and>
     4 \<le> kOffsetAlignment K \<and>
     kMaxVaryings K \<le> 6 \<and>
     SkIsPow2 (kStrideAlignment K)"

subsection \<open>Formatting\<close>

text \<open>The decimal digits that \<^verbatim>\<open>%zu\<close> prints.\<close>

fun string_of_nat :: "nat \<Rightarrow> string" where
  "string_of_nat n =
     (if n < 10 then [char_of (48 + n)]
      else string_of_nat (n div 10) @ [char_of (48 + n mod 10)])"

declare string_of_nat.simps [simp del]

definition zu :: "size_t \<Rightarrow> string" where
  "zu v = string_of_nat (unat v)"

subsection \<open>Attribute and varying types\<close>

fun attribute_type_size :: "Attribute_Type \<Rightarrow> size_t" where
  "attribute_type_size Attribute_kFloat = 4"
| "attribute_type_size Attribute_kFloat2 = 2 * 4"
| "attribute_type_size Attribute_kFloat3 = 3 * 4"
| "attribute_type_size Attribute_kFloat4 = 4 * 4"
| "attribute_type_size Attribute_kUByte4_unorm = 4"

fun attribute_type_string :: "Attribute_Type \<Rightarrow> string" where
  "attribute_type_string Attribute_kFloat = ''float''"
| "attribute_type_string Attribute_kFloat2 = ''float2''"
| "attribute_type_string Attribute_kFloat3 = ''float3''"
| "attribute_type_string Attribute_kFloat4 = ''float4''"
| "attribute_type_string Attribute_kUByte4_unorm = ''half4''"

fun varying_type_string :: "Varying_Type \<Rightarrow> string" where
  "varying_type_string Varying_kFloat = ''float''"
| "varying_type_string Varying_kFloat2 = ''float2''"
| "varying_type_string Varying_kFloat3 = ''float3''"
| "varying_type_string Varying_kFloat4 = ''float4''"
| "varying_type_string Varying_kHalf = ''half''"
| "varying_type_string Varying_kHalf2 = ''half2''"
| "varying_type_string Varying_kHalf3 = ''half3''"
| "varying_type_string Varying_kHalf4 = ''half4''"

subsection \<open>Layout validation\<close>

text \<open>
  \<^verbatim>\<open>RETURN_ERROR\<close> and \<^verbatim>\<open>RETURN_SUCCESS\<close> build the pair of a flag and a message.
\<close>

definition RETURN_ERROR :: "string \<Rightarrow> bool \<times> SkString" where
  "RETURN_ERROR msg = (False, msg)"

definition RETURN_SUCCESS :: "bool \<times> SkString" where
  "RETURN_SUCCESS = (True, [])"

text \<open>The loop over the attributes; running off its end is the success of the function.\<close>

fun check_attributes :: "'h Env \<Rightarrow> size_t \<Rightarrow> Attribute list \<Rightarrow> bool \<times> SkString" where
  "check_attributes K stride [] = RETURN_SUCCESS"
| "check_attributes K stride (a # as) =
     (if attr_offset a AND (kOffsetAlignment K - 1) \<noteq> 0 then
        RETURN_ERROR (''Attribute offset must be a multiple of '' @ zu (kOffsetAlignment K) @ ''.'')
      else if attr_offset a \<ge> stride \<or> attr_offset a + attribute_type_size (attr_type a) > stride then
        RETURN_ERROR ''Attribute offset plus size cannot exceed stride.''
      else check_attributes K stride as)"

definition check_vertex_offsets_and_stride ::
  "'h Env \<Rightarrow> Attribute list \<Rightarrow> size_t \<Rightarrow> bool \<times> SkString" where
  "check_vertex_offsets_and_stride K attributes stride =
     (if attributes = [] then
        RETURN_ERROR ''At least 1 attribute is required.''
      else if length attributes > unat (kMaxAttributes K) then
        RETURN_ERROR (''A maximum of '' @ zu (kMaxAttributes K) @ '' attributes is allowed.'')
      else if stride = 0 \<or> stride AND (kStrideAlignment K - 1) \<noteq> 0 then
        RETURN_ERROR (''Vertex stride must be a non-zero multiple of '' @ zu (kStrideAlignment K) @ ''.'')
      else if stride > kMaxStride K then
        RETURN_ERROR (''Stride cannot exceed '' @ zu (kMaxStride K) @ ''.'')
      else check_attributes K stride attributes)"

subsection \<open>Faults\<close>

text \<open>
  What the C++ leaves undefined or aborts on is a value of the model: a failed
  \<^verbatim>\<open>SkASSERT\<close> (debug builds only), \<^verbatim>\<open>SkUNREACHABLE\<close>, an index past the end of an
  array, and the remainder of a division by zero.
\<close>

datatype fault = AssertionFailed | Unreachable | OutOfBounds | DivisionByZero

subsection \<open>Inspecting a compiled program\<close>

fun has_main_loop :: "ProgramElement list \<Rightarrow> bool" where
  "has_main_loop [] = False"
| "has_main_loop (FunctionDefinition decl # elems) =
     (if isMain decl then True else has_main_loop elems)"
| "has_main_loop (OtherElement # elems) = has_main_loop elems"

definition has_main :: "Program \<Rightarrow> bool" where
  "has_main p = has_main_loop (elements p)"

text \<open>The body of the loop of \<^verbatim>\<open>get_fs_color_type_and_local_coords\<close> at the entry point.\<close>

definition fs_contract_of_main :: "bool \<Rightarrow> FunctionDeclaration \<Rightarrow> fault + ColorType \<times> bool" where
  "fs_contract_of_main dbg decl =
     (if dbg \<and> \<not> (length (parameters decl) = 1 \<or> length (parameters decl) = 2) then
        Inl AssertionFailed
      else
        case
          (if length (parameters decl) = 1 then Inr ColorType_kNone
           else if length (parameters decl) \<le> 1 then Inl OutOfBounds
           else
             let paramType = parameters decl ! 1 in
             if dbg \<and> \<not> (paramType = SkSL_fHalf4 \<or> paramType = SkSL_fFloat4) then
               Inl AssertionFailed
             else Inr (if paramType = SkSL_fHalf4 then ColorType_kHalf4 else ColorType_kFloat4))
        of
          Inl f \<Rightarrow> Inl f
        | Inr ct \<Rightarrow>
            if dbg \<and> \<not> (returnType decl = SkSL_fVoid \<or> returnType decl = SkSL_fFloat2) then
              Inl AssertionFailed
            else
              let hasLocalCoords = (returnType decl = SkSL_fFloat2)
              in Inr (ct, hasLocalCoords))"

fun get_fs_loop :: "bool \<Rightarrow> ProgramElement list \<Rightarrow> fault + ColorType \<times> bool" where
  "get_fs_loop dbg [] = Inl Unreachable"
| "get_fs_loop dbg (FunctionDefinition decl # elems) =
     (if isMain decl then fs_contract_of_main dbg decl else get_fs_loop dbg elems)"
| "get_fs_loop dbg (OtherElement # elems) = get_fs_loop dbg elems"

definition get_fs_color_type_and_local_coords ::
  "'h Env \<Rightarrow> Program \<Rightarrow> fault + ColorType \<times> bool" where
  "get_fs_color_type_and_local_coords K fsProgram = get_fs_loop (SK_DEBUG K) (elements fsProgram)"

subsection \<open>Names\<close>

text \<open>\<^verbatim>\<open>std::isalnum\<close> in the classic locale: the ASCII digits and letters.\<close>

definition isalnum_classic :: "char \<Rightarrow> bool" where
  "isalnum_classic c \<longleftrightarrow>
     (48 \<le> (of_char c :: nat) \<and> (of_char c :: nat) \<le> 57) \<or>
     (65 \<le> (of_char c :: nat) \<and> (of_char c :: nat) \<le> 90) \<or>
     (97 \<le> (of_char c :: nat) \<and> (of_char c :: nat) \<le> 122)"

fun check_name_loop :: "string \<Rightarrow> bool" where
  "check_name_loop [] = True"
| "check_name_loop (c # cs) =
     (if c \<noteq> CHR ''_'' \<and> \<not> isalnum_classic c then False else check_name_loop cs)"

definition check_name :: "SkString \<Rightarrow> bool" where
  "check_name name = (if name = [] then False else check_name_loop name)"

subsection \<open>The specification object\<close>

record (overloaded) 'h SkCustomMeshSpecification =
  fAttributes :: "Attribute list"
  fVaryings :: "Varying list"
  fVS :: Program
  fFS :: Program
  fStride :: size_t
  fHash :: "'h word"
  fColorType :: ColorType
  fHasLocalCoords :: bool
  fColorSpace :: "SkColorSpace option"
  fAlphaType :: SkAlphaType

text \<open>
  The bytes that \<^verbatim>\<open>hash_fn\<close> reads at the address of an integer: its \<open>n\<close> bytes, least
  significant first. The characters of a source text are its bytes.
\<close>

definition object_bytes :: "nat \<Rightarrow> 'a::len word \<Rightarrow> 8 word list" where
  "object_bytes n w = map (\<lambda>i. ucast (drop_bit (8 * i) w)) [0..<n]"

definition text_bytes :: "string \<Rightarrow> 8 word list" where
  "text_bytes s = map of_char s"

text \<open>
  Modelled from the spec: the 32-bit codes of the enumerators, which the absent headers
  give; the attribute types in the order the spec lists them, the alpha types with the
  unknown value first.
\<close>

fun attribute_type_code :: "Attribute_Type \<Rightarrow> 32 word" where
  "attribute_type_code Attribute_kFloat = 0"
| "attribute_type_code Attribute_kFloat2 = 1"
| "attribute_type_code Attribute_kFloat3 = 2"
| "attribute_type_code Attribute_kFloat4 = 3"
| "attribute_type_code Attribute_kUByte4_unorm = 4"

fun alpha_type_code :: "SkAlphaType \<Rightarrow> 32 word" where
  "alpha_type_code kUnknown_SkAlphaType = 0"
| "alpha_type_code kOpaque_SkAlphaType = 1"
| "alpha_type_code kPremul_SkAlphaType = 2"
| "alpha_type_code kUnpremul_SkAlphaType = 3"

fun hash_attributes :: "'h::len Env \<Rightarrow> Attribute list \<Rightarrow> 'h word \<Rightarrow> 'h word" where
  "hash_attributes K [] h = h"
| "hash_attributes K (a # as) h =
     hash_attributes K as
       (hash_fn K (object_bytes 4 (attribute_type_code (attr_type a)))
          (hash_fn K (object_bytes 8 (attr_offset a)) h))"

text \<open>The constructor: the member initialisers, then the hash.\<close>

definition SkCustomMeshSpecification_ctor ::
  "'h::len Env \<Rightarrow> Attribute list \<Rightarrow> size_t \<Rightarrow> Varying list \<Rightarrow> Program \<Rightarrow> Program \<Rightarrow>
   ColorType \<Rightarrow> bool \<Rightarrow> SkColorSpace option \<Rightarrow> SkAlphaType \<Rightarrow> 'h SkCustomMeshSpecification" where
  "SkCustomMeshSpecification_ctor K attributes stride varyings vs fs ct hasLocalCoords cs at =
     (let h1 = hash_fn K (text_bytes (fSource vs)) 0;
          h2 = hash_fn K (text_bytes (fSource fs)) h1;
          h3 = hash_attributes K attributes h2;
          h4 = hash_fn K (object_bytes 8 stride) h3;
          csHash = (case cs of Some c \<Rightarrow> cs_hash c | None \<Rightarrow> 0);
          h5 = hash_fn K (object_bytes 8 csHash) h4;
          atInt = alpha_type_code at;
          h6 = hash_fn K (object_bytes 4 atInt) h5
      in \<lparr>fAttributes = attributes, fVaryings = varyings, fVS = vs, fFS = fs,
          fStride = stride, fHash = h6, fColorType = ct, fHasLocalCoords = hasLocalCoords,
          fColorSpace = cs, fAlphaType = at\<rparr>)"

subsection \<open>Building a specification\<close>

text \<open>
  \<^verbatim>\<open>Result\<close> is the pair of the specification, null on failure, and the error text.
  A construction also yields the calls it made to the compiler, in order, and it can end
  in a fault instead of a result.
\<close>

type_synonym 'h Result = "'h SkCustomMeshSpecification option \<times> SkString"

type_synonym 'h Construction = "(ProgramKind \<times> string) list \<times> (fault + 'h Result)"

definition RETURN_FAILURE :: "string \<Rightarrow> 'h Result" where
  "RETURN_FAILURE msg = (None, msg)"

abbreviation dquote :: string where
  "dquote \<equiv> [CHR 0x22]"

abbreviation newline :: string where
  "newline \<equiv> [CHR 0x0A]"

fun attribute_names_loop :: "Attribute list \<Rightarrow> string option" where
  "attribute_names_loop [] = None"
| "attribute_names_loop (a # as) =
     (if \<not> check_name (attr_name a) then
        Some (dquote @ c_str (attr_name a) @ dquote @ '' is not a valid attribute name.'')
      else attribute_names_loop as)"

fun varying_names_loop :: "Varying list \<Rightarrow> string option" where
  "varying_names_loop [] = None"
| "varying_names_loop (v # vs) =
     (if \<not> check_name (var_name v) then
        Some (dquote @ c_str (var_name v) @ dquote @ '' is not a valid varying name.'')
      else varying_names_loop vs)"

text \<open>The end of \<^verbatim>\<open>MakeFromSourceWithStructs\<close>, from the extraction of the contract on.\<close>

definition finish_specification ::
  "'h::len Env \<Rightarrow> Attribute list \<Rightarrow> size_t \<Rightarrow> Varying list \<Rightarrow> Program \<Rightarrow> Program \<Rightarrow>
   SkColorSpace option \<Rightarrow> SkAlphaType \<Rightarrow> fault + 'h Result" where
  "finish_specification K attributes stride varyings vsProgram fsProgram cs at =
     (case get_fs_color_type_and_local_coords K fsProgram of
        Inl f \<Rightarrow> Inl f
      | Inr (ct, hasLocalCoords) \<Rightarrow>
          if ct = ColorType_kNone then
            Inr (Some (SkCustomMeshSpecification_ctor K attributes stride varyings
                         vsProgram fsProgram ct hasLocalCoords None kPremul_SkAlphaType), [])
          else if cs = None then
            Inr (None, ''Must provide a color space if FS returns a color.'')
          else if at = kUnknown_SkAlphaType then
            Inr (None, ''Must provide a valid alpha type if FS returns a color.'')
          else
            Inr (Some (SkCustomMeshSpecification_ctor K attributes stride varyings
                         vsProgram fsProgram ct hasLocalCoords cs at), []))"

text \<open>
  The two compilations, from the \<^verbatim>\<open>SharedCompiler\<close> on. The compiler is given
  \<^verbatim>\<open>std::string(vs.c_str())\<close>, and its error text is printed with \<^verbatim>\<open>%s\<close>.
\<close>

definition compile_stages ::
  "'h::len Env \<Rightarrow> Attribute list \<Rightarrow> size_t \<Rightarrow> Varying list \<Rightarrow> SkString \<Rightarrow> SkString \<Rightarrow>
   SkColorSpace option \<Rightarrow> SkAlphaType \<Rightarrow> 'h Construction" where
  "compile_stages K attributes stride varyings vs fs cs at =
     (let settings = \<lparr>fEnforceES2Restrictions = True\<rparr> in
      case convertProgram K kCustomMeshVertex (c_str vs) settings of
        Inl errorText \<Rightarrow>
          ([(kCustomMeshVertex, c_str vs)], Inr (RETURN_FAILURE (''VS: '' @ c_str errorText)))
      | Inr vsProgram \<Rightarrow>
          if \<not> has_main vsProgram then
            ([(kCustomMeshVertex, c_str vs)],
             Inr (RETURN_FAILURE ''Vertex shader must have main function.''))
          else if CallsColorTransformIntrinsics K vsProgram then
            ([(kCustomMeshVertex, c_str vs)],
             Inr (RETURN_FAILURE
                    ''Color transform intrinsics are not permitted in custom mesh shaders''))
          else
            (case convertProgram K kCustomMeshFragment (c_str fs) settings of
               Inl errorText \<Rightarrow>
                 ([(kCustomMeshVertex, c_str vs), (kCustomMeshFragment, c_str fs)],
                  Inr (RETURN_FAILURE (''FS: '' @ c_str errorText)))
             | Inr fsProgram \<Rightarrow>
                 if \<not> has_main fsProgram then
                   ([(kCustomMeshVertex, c_str vs), (kCustomMeshFragment, c_str fs)],
                    Inr (RETURN_FAILURE ''Fragment shader must have main function.''))
                 else if CallsColorTransformIntrinsics K fsProgram then
                   ([(kCustomMeshVertex, c_str vs), (kCustomMeshFragment, c_str fs)],
                    Inr (RETURN_FAILURE
                           ''Color transform intrinsics are not permitted in custom mesh shaders''))
                 else
                   ([(kCustomMeshVertex, c_str vs), (kCustomMeshFragment, c_str fs)],
                    finish_specification K attributes stride varyings vsProgram fsProgram cs at)))"

definition MakeFromSourceWithStructs ::
  "'h::len Env \<Rightarrow> Attribute list \<Rightarrow> size_t \<Rightarrow> Varying list \<Rightarrow> SkString \<Rightarrow> SkString \<Rightarrow>
   SkColorSpace option \<Rightarrow> SkAlphaType \<Rightarrow> 'h Construction" where
  "MakeFromSourceWithStructs K attributes stride varyings vs fs cs at =
     (case check_vertex_offsets_and_stride K attributes stride of
        (ok, error) \<Rightarrow>
          if \<not> ok then ([], Inr (None, error))
          else
            (case attribute_names_loop attributes of
               Some msg \<Rightarrow> ([], Inr (RETURN_FAILURE msg))
             | None \<Rightarrow>
                 if length varyings > unat (kMaxVaryings K) then
                   ([], Inr (RETURN_FAILURE
                               (''A maximum of '' @ zu (kMaxVaryings K) @ '' varyings is allowed.'')))
                 else
                   (case varying_names_loop varyings of
                      Some msg \<Rightarrow> ([], Inr (None, msg))
                    | None \<Rightarrow> compile_stages K attributes stride varyings vs fs cs at)))"

subsection \<open>Synthesis of the struct declarations\<close>

fun attributes_loop :: "Attribute list \<Rightarrow> SkString \<Rightarrow> SkString" where
  "attributes_loop [] attributesStruct = attributesStruct"
| "attributes_loop (a # as) attributesStruct =
     attributes_loop as
       (attributesStruct @ ''  '' @ attribute_type_string (attr_type a) @ '' ''
          @ c_str (attr_name a) @ '';'' @ newline)"

fun varyings_loop :: "Varying list \<Rightarrow> SkString \<Rightarrow> SkString" where
  "varyings_loop [] varyingStruct = varyingStruct"
| "varyings_loop (v # vs) varyingStruct =
     varyings_loop vs
       (varyingStruct @ ''  '' @ varying_type_string (var_type v) @ '' ''
          @ c_str (var_name v) @ '';'' @ newline)"

definition attributesStruct :: "Attribute list \<Rightarrow> SkString" where
  "attributesStruct attributes =
     attributes_loop attributes (''struct Attributes {'' @ newline) @ ''};'' @ newline"

definition varyingStruct :: "Varying list \<Rightarrow> SkString" where
  "varyingStruct varyings =
     (let s = varyings_loop varyings (''struct Varyings {'' @ newline);
          s' = (if varyings = [] then s @ ''  bool _empty_;'' @ newline else s)
      in s' @ ''};'' @ newline)"

definition fullVS :: "Attribute list \<Rightarrow> Varying list \<Rightarrow> SkString \<Rightarrow> SkString" where
  "fullVS attributes varyings vs =
     (([] @ c_str (varyingStruct varyings)) @ c_str (attributesStruct attributes)) @ c_str vs"

definition fullFS :: "Varying list \<Rightarrow> SkString \<Rightarrow> SkString" where
  "fullFS varyings fs = ([] @ c_str (varyingStruct varyings)) @ c_str fs"

definition SkCustomMeshSpecification_Make ::
  "'h::len Env \<Rightarrow> Attribute list \<Rightarrow> size_t \<Rightarrow> Varying list \<Rightarrow> SkString \<Rightarrow> SkString \<Rightarrow>
   SkColorSpace option \<Rightarrow> SkAlphaType \<Rightarrow> 'h Construction" where
  "SkCustomMeshSpecification_Make K attributes vertexStride varyings vs fs cs at =
     MakeFromSourceWithStructs K attributes vertexStride varyings
       (fullVS attributes varyings vs) (fullFS varyings fs) cs at"

text \<open>The overloads without an alpha type and without a color space.\<close>

definition SkCustomMeshSpecification_Make_cs ::
  "'h::len Env \<Rightarrow> Attribute list \<Rightarrow> size_t \<Rightarrow> Varying list \<Rightarrow> SkString \<Rightarrow> SkString \<Rightarrow>
   SkColorSpace option \<Rightarrow> 'h Construction" where
  "SkCustomMeshSpecification_Make_cs K attributes vertexStride varyings vs fs cs =
     SkCustomMeshSpecification_Make K attributes vertexStride varyings vs fs cs kPremul_SkAlphaType"

definition SkCustomMeshSpecification_Make_default ::
  "'h::len Env \<Rightarrow> Attribute list \<Rightarrow> size_t \<Rightarrow> Varying list \<Rightarrow> SkString \<Rightarrow> SkString \<Rightarrow>
   'h Construction" where
  "SkCustomMeshSpecification_Make_default K attributes vertexStride varyings vs fs =
     SkCustomMeshSpecification_Make K attributes vertexStride varyings vs fs
       (Some (MakeSRGB K)) kPremul_SkAlphaType"

subsection \<open>Meshes\<close>

text \<open>
  Modelled from the spec: the buffers are opaque handles that expose a byte length
  (src/core/SkCustomMeshPriv.h is not among the sources).
\<close>

record VertexBuffer =
  vb_size :: size_t

record IndexBuffer =
  ib_size :: size_t

datatype Mode = kTriangles | kTriangleStrip

record 's SkRect =
  fLeft :: 's
  fTop :: 's
  fRight :: 's
  fBottom :: 's

definition SkRect_MakeEmpty :: "('s::zero) SkRect" where
  "SkRect_MakeEmpty = \<lparr>fLeft = 0, fTop = 0, fRight = 0, fBottom = 0\<rparr>"

record (overloaded) ('h, 's) SkCustomMesh =
  fSpec :: "'h SkCustomMeshSpecification option"
  fMode :: Mode
  fVB :: "VertexBuffer option"
  fIB :: "IndexBuffer option"
  fVCount :: size_t
  fVOffset :: size_t
  fICount :: size_t
  fIOffset :: size_t
  fBounds :: "'s SkRect"

text \<open>
  Modelled from the spec: the default-constructed mesh, whose member initialisers are in
  the absent header: null specification, no buffers, zero counts and offsets; the mode is
  the first enumerator and the bounds are empty.
\<close>

definition SkCustomMesh_default :: "('h, 's::zero) SkCustomMesh" where
  "SkCustomMesh_default =
     \<lparr>fSpec = None, fMode = kTriangles, fVB = None, fIB = None,
      fVCount = 0, fVOffset = 0, fICount = 0, fIOffset = 0, fBounds = SkRect_MakeEmpty\<rparr>"

text \<open>
  Modelled from the spec: \<^verbatim>\<open>SkSafeMath\<close> (src/core/SkSafeMath.h is not among the
  sources), the overflow-checked arithmetic. \<open>mul\<close> and \<open>add\<close> return the wrapped result
  and clear the flag when the exact result does not fit \<^verbatim>\<open>size_t\<close>.
\<close>

record SkSafeMath =
  fOK :: bool

definition SkSafeMath_mul :: "SkSafeMath \<Rightarrow> size_t \<Rightarrow> size_t \<Rightarrow> size_t \<times> SkSafeMath" where
  "SkSafeMath_mul sm x y = (x * y, sm\<lparr>fOK := fOK sm \<and> unat x * unat y < 2 ^ 64\<rparr>)"

definition SkSafeMath_add :: "SkSafeMath \<Rightarrow> size_t \<Rightarrow> size_t \<Rightarrow> size_t \<times> SkSafeMath" where
  "SkSafeMath_add sm x y = (x + y, sm\<lparr>fOK := fOK sm \<and> unat x + unat y < 2 ^ 64\<rparr>)"

definition SkIsAlign2 :: "size_t \<Rightarrow> bool" where
  "SkIsAlign2 x \<longleftrightarrow> x AND 1 = 0"

fun min_vcount_for_mode :: "Mode \<Rightarrow> size_t" where
  "min_vcount_for_mode kTriangles = 3"
| "min_vcount_for_mode kTriangleStrip = 3"

text \<open>The index-buffer half of \<^verbatim>\<open>validate\<close>, from \<^verbatim>\<open>if (ib)\<close> to the final \<^verbatim>\<open>sm.ok()\<close>.\<close>

definition validate_indices :: "('h, 's) SkCustomMesh \<Rightarrow> SkSafeMath \<Rightarrow> bool" where
  "validate_indices m sm =
     (case fIB m of
        Some ib \<Rightarrow>
          if fICount m < min_vcount_for_mode (fMode m) then False
          else
            (case SkSafeMath_mul sm 2 (fICount m) of
               (isize, sm1) \<Rightarrow>
                 (case SkSafeMath_add sm1 isize (fIOffset m) of
                    (iend, sm2) \<Rightarrow>
                      if iend > ib_size ib then False
                      else if \<not> SkIsAlign2 (fIOffset m) then False
                      else fOK sm2))
      | None \<Rightarrow>
          if fVCount m < min_vcount_for_mode (fMode m) then False
          else if fICount m \<noteq> 0 \<or> fIOffset m \<noteq> 0 then False
          else fOK sm)"

definition validate :: "('h, 's) SkCustomMesh \<Rightarrow> fault + bool" where
  "validate m =
     (case fSpec m of
        None \<Rightarrow> Inr False
      | Some spec \<Rightarrow>
          (case fVB m of
             None \<Rightarrow> Inr False
           | Some vb \<Rightarrow>
               if fVCount m = 0 then Inr False
               else
                 (case SkSafeMath_mul \<lparr>fOK = True\<rparr> (fStride spec) (fVCount m) of
                    (vsize, sm1) \<Rightarrow>
                      (case SkSafeMath_add sm1 vsize (fVOffset m) of
                         (vend, sm2) \<Rightarrow>
                           if vend > vb_size vb then Inr False
                           else if fStride spec = 0 then Inl DivisionByZero
                           else if fVOffset m mod fStride spec \<noteq> 0 then Inr False
                           else Inr (validate_indices m sm2)))))"

definition SkCustomMesh_Make ::
  "'h SkCustomMeshSpecification option \<Rightarrow> Mode \<Rightarrow> VertexBuffer option \<Rightarrow> size_t \<Rightarrow> size_t \<Rightarrow>
   's SkRect \<Rightarrow> fault + ('h, 's::zero) SkCustomMesh" where
  "SkCustomMesh_Make spec mode vb vertexCount vertexOffset bounds =
     (let cm = SkCustomMesh_default
            \<lparr>fSpec := spec, fMode := mode, fVB := vb, fVCount := vertexCount,
             fVOffset := vertexOffset, fBounds := bounds\<rparr>
      in case validate cm of
           Inl f \<Rightarrow> Inl f
         | Inr valid \<Rightarrow> Inr (if valid then cm else SkCustomMesh_default))"

definition SkCustomMesh_MakeIndexed ::
  "'h SkCustomMeshSpecification option \<Rightarrow> Mode \<Rightarrow> VertexBuffer option \<Rightarrow> size_t \<Rightarrow> size_t \<Rightarrow>
   IndexBuffer option \<Rightarrow> size_t \<Rightarrow> size_t \<Rightarrow> 's SkRect \<Rightarrow> fault + ('h, 's::zero) SkCustomMesh" where
  "SkCustomMesh_MakeIndexed spec mode vb vertexCount vertexOffset ib indexCount indexOffset bounds =
     (let cm = SkCustomMesh_default
            \<lparr>fSpec := spec, fMode := mode, fVB := vb, fVCount := vertexCount,
             fVOffset := vertexOffset, fIB := ib, fICount := indexCount,
             fIOffset := indexOffset, fBounds := bounds\<rparr>
      in case validate cm of
           Inl f \<Rightarrow> Inl f
         | Inr valid \<Rightarrow> Inr (if valid then cm else SkCustomMesh_default))"

definition isValid :: "bool \<Rightarrow> ('h, 's) SkCustomMesh \<Rightarrow> fault + bool" where
  "isValid dbg m =
     (let valid = (fSpec m \<noteq> None) in
      if dbg then
        (case validate m of
           Inl f \<Rightarrow> Inl f
         | Inr v \<Rightarrow> if valid = v then Inr valid else Inl AssertionFailed)
      else Inr valid)"

subsection \<open>The rules of the layout, as arithmetic\<close>

abbreviation count_rule :: "'h Env \<Rightarrow> Attribute list \<Rightarrow> bool" where
  "count_rule K attrs \<equiv> attrs \<noteq> [] \<and> length attrs \<le> unat (kMaxAttributes K)"

abbreviation stride_multiple :: "'h Env \<Rightarrow> size_t \<Rightarrow> bool" where
  "stride_multiple K stride \<equiv> stride \<noteq> 0 \<and> unat (kStrideAlignment K) dvd unat stride"

abbreviation offset_multiple :: "'h Env \<Rightarrow> Attribute \<Rightarrow> bool" where
  "offset_multiple K a \<equiv> unat (kOffsetAlignment K) dvd unat (attr_offset a)"

text \<open>The sum is the exact one, of natural numbers.\<close>

abbreviation within_stride :: "size_t \<Rightarrow> Attribute \<Rightarrow> bool" where
  "within_stride stride a \<equiv>
     attr_offset a < stride \<and>
     unat (attr_offset a) + unat (attribute_type_size (attr_type a)) \<le> unat stride"

text \<open>What one turn of the loop of the layout check tests, in the words of the code.\<close>

definition attribute_passes :: "'h Env \<Rightarrow> size_t \<Rightarrow> Attribute \<Rightarrow> bool" where
  "attribute_passes K stride a \<longleftrightarrow>
     attr_offset a AND (kOffsetAlignment K - 1) = 0 \<and>
     \<not> (attr_offset a \<ge> stride \<or> attr_offset a + attribute_type_size (attr_type a) > stride)"

subsection \<open>The identity hash, in the words of the specification\<close>

text \<open>
  The fold that the specification describes, as a function of exactly the inputs it
  names: the two source texts, the pairs of offset and type in order, the stride, the hash
  of the color space or zero, and the code of the alpha type.
\<close>

definition identity_hash ::
  "'h::len Env \<Rightarrow> string \<Rightarrow> string \<Rightarrow> (size_t \<times> Attribute_Type) list \<Rightarrow> size_t \<Rightarrow> 64 word \<Rightarrow>
   32 word \<Rightarrow> 'h word" where
  "identity_hash K vsText fsText pairs stride csHash atCode =
     hash_fn K (object_bytes 4 atCode)
       (hash_fn K (object_bytes 8 csHash)
          (hash_fn K (object_bytes 8 stride)
             (fold (\<lambda>(offset, type) h.
                      hash_fn K (object_bytes 4 (attribute_type_code type))
                        (hash_fn K (object_bytes 8 offset) h))
                pairs
                (hash_fn K (text_bytes fsText) (hash_fn K (text_bytes vsText) 0)))))"

abbreviation offsets_and_types :: "Attribute list \<Rightarrow> (size_t \<times> Attribute_Type) list" where
  "offsets_and_types attributes \<equiv> map (\<lambda>a. (attr_offset a, attr_type a)) attributes"

abbreviation hash_or_zero :: "SkColorSpace option \<Rightarrow> 64 word" where
  "hash_or_zero cs \<equiv> (case cs of Some c \<Rightarrow> cs_hash c | None \<Rightarrow> 0)"

subsection \<open>The stages before the contract\<close>

text \<open>The settings that both compilations are given.\<close>

abbreviation es2 :: Settings where
  "es2 \<equiv> \<lparr>fEnforceES2Restrictions = True\<rparr>"

text \<open>
  All the checks and both compilations of \<open>MakeFromSourceWithStructs\<close> pass, and
  the compiler, given the two sources as C strings, returns \<open>vsProgram\<close> and
  \<open>fsProgram\<close>.
\<close>

definition stages_pass ::
  "'h Env \<Rightarrow> Attribute list \<Rightarrow> size_t \<Rightarrow> Varying list \<Rightarrow> SkString \<Rightarrow> SkString \<Rightarrow>
   Program \<Rightarrow> Program \<Rightarrow> bool" where
  "stages_pass K attributes stride varyings vs fs vsProgram fsProgram \<longleftrightarrow>
     fst (check_vertex_offsets_and_stride K attributes stride) \<and>
     (\<forall>a\<in>set attributes. check_name (attr_name a)) \<and>
     length varyings \<le> unat (kMaxVaryings K) \<and>
     (\<forall>v\<in>set varyings. check_name (var_name v)) \<and>
     convertProgram K kCustomMeshVertex (c_str vs) es2 = Inr vsProgram \<and>
     has_main vsProgram \<and> \<not> CallsColorTransformIntrinsics K vsProgram \<and>
     convertProgram K kCustomMeshFragment (c_str fs) es2 = Inr fsProgram \<and>
     has_main fsProgram \<and> \<not> CallsColorTransformIntrinsics K fsProgram"

text \<open>No element of the list is the definition of an entry point.\<close>

abbreviation no_main :: "ProgramElement list \<Rightarrow> bool" where
  "no_main elems \<equiv> \<forall>e\<in>set elems. \<forall>d. e = FunctionDefinition d \<longrightarrow> \<not> isMain d"

subsection \<open>The lines of the struct declarations\<close>

abbreviation attribute_line :: "Attribute \<Rightarrow> string" where
  "attribute_line a \<equiv>
     ''  '' @ attribute_type_string (attr_type a) @ '' '' @ c_str (attr_name a) @ '';''
       @ newline"

abbreviation varying_line :: "Varying \<Rightarrow> string" where
  "varying_line v \<equiv>
     ''  '' @ varying_type_string (var_type v) @ '' '' @ c_str (var_name v) @ '';''
       @ newline"

subsection \<open>Passing the checks that precede the compiler\<close>

abbreviation validated :: "'h Env \<Rightarrow> Attribute list \<Rightarrow> size_t \<Rightarrow> Varying list \<Rightarrow> bool" where
  "validated K attributes stride varyings \<equiv>
     fst (check_vertex_offsets_and_stride K attributes stride) \<and>
     (\<forall>a\<in>set attributes. check_name (attr_name a)) \<and>
     length varyings \<le> unat (kMaxVaryings K) \<and>
     (\<forall>v\<in>set varyings. check_name (var_name v))"

abbreviation stage_passes :: "'h Env \<Rightarrow> ProgramKind \<Rightarrow> SkString \<Rightarrow> Program \<Rightarrow> bool" where
  "stage_passes K kind src program \<equiv>
     convertProgram K kind src es2 = Inr program \<and> has_main program \<and>
     \<not> CallsColorTransformIntrinsics K program"

subsection \<open>A concrete environment\<close>

text \<open>
  The limits are within the bounds of the static assertions. The compiler is a stand-in
  that accepts every text: a vertex program is a \<open>main\<close> alone, a fragment program has
  the entry point it is given, after a declaration that is not a function.
\<close>

definition vertex_main :: FunctionDeclaration where
  "vertex_main =
     \<lparr>isMain = True, parameters = [SkSL_other ''Attributes'', SkSL_other ''Varyings''],
      returnType = SkSL_fFloat2\<rparr>"

definition stand_in_compiler ::
  "FunctionDeclaration \<Rightarrow> ProgramKind \<Rightarrow> string \<Rightarrow> Settings \<Rightarrow> string + Program" where
  "stand_in_compiler fsMain kind src settings =
     (case kind of
        kCustomMeshVertex \<Rightarrow> Inr \<lparr>elements = [FunctionDefinition vertex_main], fSource = src\<rparr>
      | kCustomMeshFragment \<Rightarrow>
          Inr \<lparr>elements = [OtherElement, FunctionDefinition fsMain], fSource = src\<rparr>)"

definition srgb :: SkColorSpace where
  "srgb = \<lparr>cs_data = 0, cs_hash = 1\<rparr>"

definition stand_in_hash :: "8 word list \<Rightarrow> 32 word \<Rightarrow> 32 word" where
  "stand_in_hash bytes seed = fold (\<lambda>b h. h * 31 + ucast b) bytes seed"

definition env0 :: "FunctionDeclaration \<Rightarrow> 32 Env" where
  "env0 fsMain =
     \<lparr>kMaxAttributes = 8, kMaxVaryings = 6, kMaxStride = 1024,
      kStrideAlignment = 4, kOffsetAlignment = 4, SK_DEBUG = True,
      convertProgram = stand_in_compiler fsMain,
      CallsColorTransformIntrinsics = (\<lambda>p. False),
      hash_fn = stand_in_hash,
      MakeSRGB = srgb\<rparr>"

definition pos_attr :: Attribute where
  "pos_attr = \<lparr>attr_type = Attribute_kFloat2, attr_offset = 0, attr_name = ''pos''\<rparr>"

definition color_attr :: Attribute where
  "color_attr = \<lparr>attr_type = Attribute_kUByte4_unorm, attr_offset = 8, attr_name = ''color''\<rparr>"

text \<open>A specification with no color output, and the mesh of one triangle on twelve bytes.\<close>

definition plain_fs_main :: FunctionDeclaration where
  "plain_fs_main =
     \<lparr>isMain = True, parameters = [SkSL_other ''Varyings''], returnType = SkSL_fVoid\<rparr>"

definition x_attr :: Attribute where
  "x_attr = \<lparr>attr_type = Attribute_kFloat, attr_offset = 0, attr_name = ''x''\<rparr>"

definition plain_spec :: "32 SkCustomMeshSpecification" where
  "plain_spec =
     SkCustomMeshSpecification_ctor (env0 plain_fs_main)
       [x_attr] 4 []
       \<lparr>elements = [FunctionDefinition vertex_main], fSource = ''vs''\<rparr>
       \<lparr>elements = [OtherElement, FunctionDefinition plain_fs_main], fSource = ''fs''\<rparr>
       ColorType_kNone False None kPremul_SkAlphaType"

definition triangle_mesh :: "(32, int) SkCustomMesh" where
  "triangle_mesh =
     SkCustomMesh_default
       \<lparr>fSpec := Some plain_spec, fMode := kTriangles, fVB := Some \<lparr>vb_size = 12\<rparr>,
        fVCount := 3, fVOffset := 0\<rparr>"

text \<open>An entry point with a color output and local coordinates.\<close>

definition color_fs_main :: FunctionDeclaration where
  "color_fs_main =
     \<lparr>isMain = True, parameters = [SkSL_other ''Varyings'', SkSL_fHalf4],
      returnType = SkSL_fFloat2\<rparr>"

text \<open>Names that are not identifiers, and seven varyings.\<close>

definition bad_attr :: Attribute where
  "bad_attr = \<lparr>attr_type = Attribute_kFloat, attr_offset = 0, attr_name = ''a;b''\<rparr>"

definition good_varying :: Varying where
  "good_varying = \<lparr>var_type = Varying_kFloat2, var_name = ''uv''\<rparr>"

definition bad_varying :: Varying where
  "bad_varying = \<lparr>var_type = Varying_kFloat2, var_name = ''a b''\<rparr>"

definition seven_varyings :: "Varying list" where
  "seven_varyings =
     [good_varying, good_varying, good_varying, good_varying, good_varying, good_varying,
      bad_varying]"

text \<open>The specification that \<open>Make\<close> builds from the bodies \<open>vs\<close> and \<open>fs\<close>.\<close>

definition made_spec :: "32 SkCustomMeshSpecification" where
  "made_spec =
     SkCustomMeshSpecification_ctor (env0 plain_fs_main) [x_attr] 4 []
       \<lparr>elements = [FunctionDefinition vertex_main], fSource = fullVS [x_attr] [] ''vs''\<rparr>
       \<lparr>elements = [OtherElement, FunctionDefinition plain_fs_main],
        fSource = fullFS [] ''fs''\<rparr>
       ColorType_kNone False None kPremul_SkAlphaType"

text \<open>A vertex body and an attribute name that hold the character NUL.\<close>

definition nul_body :: SkString where
  "nul_body = ''v'' @ [CHR 0x00] @ ''s''"

definition nul_attr :: Attribute where
  "nul_attr =
     \<lparr>attr_type = Attribute_kFloat, attr_offset = 0, attr_name = ''a'' @ [CHR 0x00] @ ''b''\<rparr>"

section \<open>The stages of the construction\<close>

text \<open>What a reader of C strings gets has no NUL, and a text without NUL is read whole.\<close>

lemma c_str_no_nul: "CHR 0x00 \<notin> set (c_str s)"
  by (auto simp: c_str_def dest: set_takeWhileD)

lemma c_str_whole: "CHR 0x00 \<notin> set s \<Longrightarrow> c_str s = s"
  by (auto simp: c_str_def)

lemma c_str_idem: "c_str (c_str s) = c_str s"
  by (simp add: c_str_whole c_str_no_nul)

lemma c_str_cut: "CHR 0x00 \<notin> set s \<Longrightarrow> c_str (s @ CHR 0x00 # t) = s"
  by (auto simp: c_str_def takeWhile_append)

lemma ctor_fields:
  "fAttributes (SkCustomMeshSpecification_ctor K attributes stride varyings vs fs ct hasLocalCoords cs at) = attributes"
  "fVaryings (SkCustomMeshSpecification_ctor K attributes stride varyings vs fs ct hasLocalCoords cs at) = varyings"
  "fVS (SkCustomMeshSpecification_ctor K attributes stride varyings vs fs ct hasLocalCoords cs at) = vs"
  "fFS (SkCustomMeshSpecification_ctor K attributes stride varyings vs fs ct hasLocalCoords cs at) = fs"
  "fStride (SkCustomMeshSpecification_ctor K attributes stride varyings vs fs ct hasLocalCoords cs at) = stride"
  "fColorType (SkCustomMeshSpecification_ctor K attributes stride varyings vs fs ct hasLocalCoords cs at) = ct"
  "fHasLocalCoords (SkCustomMeshSpecification_ctor K attributes stride varyings vs fs ct hasLocalCoords cs at) = hasLocalCoords"
  "fColorSpace (SkCustomMeshSpecification_ctor K attributes stride varyings vs fs ct hasLocalCoords cs at) = cs"
  "fAlphaType (SkCustomMeshSpecification_ctor K attributes stride varyings vs fs ct hasLocalCoords cs at) = at"
  by (simp_all add: SkCustomMeshSpecification_ctor_def Let_def)

lemma finish_specification_success:
  assumes "finish_specification K attributes stride varyings vsP fsP cs at = Inr (Some s, e)"
  obtains ct hlc where
    "get_fs_color_type_and_local_coords K fsP = Inr (ct, hlc)"
    "e = []"
    "s = SkCustomMeshSpecification_ctor K attributes stride varyings vsP fsP ct hlc
           (if ct = ColorType_kNone then None else cs)
           (if ct = ColorType_kNone then kPremul_SkAlphaType else at)"
    "ct \<noteq> ColorType_kNone \<longrightarrow> cs \<noteq> None \<and> at \<noteq> kUnknown_SkAlphaType"
  using assms
  by (auto simp: finish_specification_def split: sum.splits prod.splits if_splits)

lemma compile_stages_success:
  assumes "snd (compile_stages K attributes stride varyings vs fs cs at) = Inr (Some s, e)"
  obtains vsP fsP where
    "convertProgram K kCustomMeshVertex (c_str vs) es2 = Inr vsP" "has_main vsP"
    "\<not> CallsColorTransformIntrinsics K vsP"
    "convertProgram K kCustomMeshFragment (c_str fs) es2 = Inr fsP" "has_main fsP"
    "\<not> CallsColorTransformIntrinsics K fsP"
    "finish_specification K attributes stride varyings vsP fsP cs at = Inr (Some s, e)"
  using assms
  by (auto simp: compile_stages_def RETURN_FAILURE_def Let_def split: sum.splits if_splits)

lemma MakeFromSourceWithStructs_success:
  assumes "snd (MakeFromSourceWithStructs K attributes stride varyings vs fs cs at) = Inr (Some s, e)"
  shows "fst (check_vertex_offsets_and_stride K attributes stride)"
    and "attribute_names_loop attributes = None"
    and "length varyings \<le> unat (kMaxVaryings K)"
    and "varying_names_loop varyings = None"
    and "snd (compile_stages K attributes stride varyings vs fs cs at) = Inr (Some s, e)"
  using assms
  by (auto simp: MakeFromSourceWithStructs_def RETURN_FAILURE_def
      split: prod.splits option.splits if_splits)

lemma attribute_names_loop_None:
  "attribute_names_loop attributes = None \<longleftrightarrow> (\<forall>a\<in>set attributes. check_name (attr_name a))"
  by (induction attributes) simp_all

lemma varying_names_loop_None:
  "varying_names_loop varyings = None \<longleftrightarrow> (\<forall>v\<in>set varyings. check_name (var_name v))"
  by (induction varyings) simp_all

lemma attribute_names_loop_first:
  "(\<forall>b\<in>set pre. check_name (attr_name b)) \<Longrightarrow> \<not> check_name (attr_name a) \<Longrightarrow>
   attribute_names_loop (pre @ a # post) =
     Some (dquote @ c_str (attr_name a) @ dquote @ '' is not a valid attribute name.'')"
  by (induction pre) simp_all

lemma varying_names_loop_first:
  "(\<forall>b\<in>set pre. check_name (var_name b)) \<Longrightarrow> \<not> check_name (var_name v) \<Longrightarrow>
   varying_names_loop (pre @ v # post) =
     Some (dquote @ c_str (var_name v) @ dquote @ '' is not a valid varying name.'')"
  by (induction pre) simp_all

lemma stages_pass_compile:
  assumes "stages_pass K attributes stride varyings vs fs vsP fsP"
  shows "compile_stages K attributes stride varyings vs fs cs at =
     ([(kCustomMeshVertex, c_str vs), (kCustomMeshFragment, c_str fs)],
      finish_specification K attributes stride varyings vsP fsP cs at)"
  using assms by (simp add: stages_pass_def compile_stages_def)

lemma validated_Make:
  assumes "fst (check_vertex_offsets_and_stride K attributes stride)"
    and "\<forall>a\<in>set attributes. check_name (attr_name a)"
    and "length varyings \<le> unat (kMaxVaryings K)"
    and "\<forall>v\<in>set varyings. check_name (var_name v)"
  shows "MakeFromSourceWithStructs K attributes stride varyings vs fs cs at =
     compile_stages K attributes stride varyings vs fs cs at"
proof -
  have "attribute_names_loop attributes = None" "varying_names_loop varyings = None"
    using assms(2,4) by (simp_all add: attribute_names_loop_None varying_names_loop_None)
  then show ?thesis
    using assms(1,3)
    by (cases "check_vertex_offsets_and_stride K attributes stride")
      (simp add: MakeFromSourceWithStructs_def)
qed

lemma stages_pass_Make:
  assumes "stages_pass K attributes stride varyings vs fs vsP fsP"
  shows "MakeFromSourceWithStructs K attributes stride varyings vs fs cs at =
     ([(kCustomMeshVertex, c_str vs), (kCustomMeshFragment, c_str fs)],
      finish_specification K attributes stride varyings vsP fsP cs at)"
proof -
  have "MakeFromSourceWithStructs K attributes stride varyings vs fs cs at =
     compile_stages K attributes stride varyings vs fs cs at"
    using assms by (intro validated_Make) (simp_all add: stages_pass_def)
  then show ?thesis by (simp only: stages_pass_compile [OF assms])
qed

lemma success_stages_pass:
  assumes "snd (MakeFromSourceWithStructs K attributes stride varyings vs fs cs at) = Inr (Some s, e)"
  obtains vsP fsP where "stages_pass K attributes stride varyings vs fs vsP fsP"
    and "finish_specification K attributes stride varyings vsP fsP cs at = Inr (Some s, e)"
proof -
  note m = MakeFromSourceWithStructs_success [OF assms]
  from m(5) obtain vsP fsP where c:
    "convertProgram K kCustomMeshVertex (c_str vs) es2 = Inr vsP" "has_main vsP"
    "\<not> CallsColorTransformIntrinsics K vsP"
    "convertProgram K kCustomMeshFragment (c_str fs) es2 = Inr fsP" "has_main fsP"
    "\<not> CallsColorTransformIntrinsics K fsP"
    "finish_specification K attributes stride varyings vsP fsP cs at = Inr (Some s, e)"
    by (rule compile_stages_success)
  have "stages_pass K attributes stride varyings vs fs vsP fsP"
    using m(1-4) c(1-6)
    by (simp add: stages_pass_def attribute_names_loop_None varying_names_loop_None)
  from this c(7) show ?thesis by (rule that)
qed

lemma check_name_loop_iff:
  "check_name_loop name \<longleftrightarrow> (\<forall>c\<in>set name. c = CHR ''_'' \<or> isalnum_classic c)"
  by (induction name) auto

lemma check_name_iff:
  "check_name name \<longleftrightarrow> name \<noteq> [] \<and> (\<forall>c\<in>set name. c = CHR ''_'' \<or> isalnum_classic c)"
  by (simp add: check_name_def check_name_loop_iff)

lemma check_attributes_message:
  "\<not> fst (check_attributes K stride attributes) \<Longrightarrow>
   snd (check_attributes K stride attributes) \<noteq> []"
  by (induction attributes) (auto simp: RETURN_ERROR_def RETURN_SUCCESS_def split: if_splits)

lemma layout_message:
  "\<not> fst (check_vertex_offsets_and_stride K attributes stride) \<Longrightarrow>
   snd (check_vertex_offsets_and_stride K attributes stride) \<noteq> []"
  by (auto simp: check_vertex_offsets_and_stride_def RETURN_ERROR_def check_attributes_message
      split: if_splits)

lemma Make_layout_failure:
  assumes "\<not> fst (check_vertex_offsets_and_stride K attributes stride)"
  shows "MakeFromSourceWithStructs K attributes stride varyings vs fs cs at =
     ([], Inr (None, snd (check_vertex_offsets_and_stride K attributes stride)))"
  using assms
  by (cases "check_vertex_offsets_and_stride K attributes stride")
    (simp add: MakeFromSourceWithStructs_def)

lemma Make_attribute_name_failure:
  assumes "fst (check_vertex_offsets_and_stride K attributes stride)"
    and "attributes = pre @ a # post" and "\<forall>b\<in>set pre. check_name (attr_name b)"
    and "\<not> check_name (attr_name a)"
  shows "MakeFromSourceWithStructs K attributes stride varyings vs fs cs at =
     ([], Inr (None, dquote @ c_str (attr_name a) @ dquote @ '' is not a valid attribute name.''))"
proof -
  have "attribute_names_loop attributes =
      Some (dquote @ c_str (attr_name a) @ dquote @ '' is not a valid attribute name.'')"
    unfolding assms(2) using assms(3,4) by (rule attribute_names_loop_first)
  then show ?thesis
    using assms(1)
    by (cases "check_vertex_offsets_and_stride K attributes stride")
      (simp add: MakeFromSourceWithStructs_def RETURN_FAILURE_def)
qed

lemma Make_varying_count_failure:
  assumes "fst (check_vertex_offsets_and_stride K attributes stride)"
    and "\<forall>a\<in>set attributes. check_name (attr_name a)"
    and "unat (kMaxVaryings K) < length varyings"
  shows "MakeFromSourceWithStructs K attributes stride varyings vs fs cs at =
     ([], Inr (None, ''A maximum of '' @ zu (kMaxVaryings K) @ '' varyings is allowed.''))"
proof -
  have "attribute_names_loop attributes = None"
    using assms(2) by (simp add: attribute_names_loop_None)
  then show ?thesis
    using assms(1,3)
    by (cases "check_vertex_offsets_and_stride K attributes stride")
      (simp add: MakeFromSourceWithStructs_def RETURN_FAILURE_def)
qed

lemma Make_varying_name_failure:
  assumes "fst (check_vertex_offsets_and_stride K attributes stride)"
    and "\<forall>a\<in>set attributes. check_name (attr_name a)"
    and "length varyings \<le> unat (kMaxVaryings K)"
    and "varyings = pre @ v # post" and "\<forall>w\<in>set pre. check_name (var_name w)"
    and "\<not> check_name (var_name v)"
  shows "MakeFromSourceWithStructs K attributes stride varyings vs fs cs at =
     ([], Inr (None, dquote @ c_str (var_name v) @ dquote @ '' is not a valid varying name.''))"
proof -
  have "attribute_names_loop attributes = None"
    using assms(2) by (simp add: attribute_names_loop_None)
  moreover have "varying_names_loop varyings =
      Some (dquote @ c_str (var_name v) @ dquote @ '' is not a valid varying name.'')"
    unfolding assms(4) using assms(5,6) by (rule varying_names_loop_first)
  ultimately show ?thesis
    using assms(1,3)
    by (cases "check_vertex_offsets_and_stride K attributes stride")
      (simp add: MakeFromSourceWithStructs_def)
qed

lemma first_invalid:
  assumes "\<exists>x\<in>set xs. \<not> P x"
  shows "\<exists>pre x post. xs = pre @ x # post \<and> (\<forall>y\<in>set pre. P y) \<and> \<not> P x"
  using assms
proof (induction xs)
  case Nil
  then show ?case by simp
next
  case (Cons z zs)
  show ?case
  proof (cases "P z")
    case False
    then show ?thesis
      by (intro exI [of _ "[]"] exI [of _ z] exI [of _ zs]) simp
  next
    case True
    with Cons.prems have "\<exists>x\<in>set zs. \<not> P x" by auto
    with Cons.IH obtain pre x post where
      "zs = pre @ x # post" "\<forall>y\<in>set pre. P y" "\<not> P x" by blast
    with True show ?thesis
      by (intro exI [of _ "z # pre"] exI [of _ x] exI [of _ post]) simp
  qed
qed

text \<open>With an invalid name the compiler is never reached.\<close>

lemma check_attributes_limits:
  "check_attributes (K\<lparr>convertProgram := compiler, CallsColorTransformIntrinsics := intrinsics\<rparr>)
     stride attributes = check_attributes K stride attributes"
  by (induction attributes) simp_all

lemma layout_limits:
  "check_vertex_offsets_and_stride
     (K\<lparr>convertProgram := compiler, CallsColorTransformIntrinsics := intrinsics\<rparr>)
     attributes stride = check_vertex_offsets_and_stride K attributes stride"
  by (simp add: check_vertex_offsets_and_stride_def check_attributes_limits)

lemma invalid_name_no_compile:
  assumes "(\<exists>a\<in>set attributes. \<not> check_name (attr_name a)) \<or>
           (\<exists>v\<in>set varyings. \<not> check_name (var_name v))"
  shows "\<exists>msg. msg \<noteq> [] \<and>
     MakeFromSourceWithStructs K attributes stride varyings vs fs cs at = ([], Inr (None, msg)) \<and>
     MakeFromSourceWithStructs
       (K\<lparr>convertProgram := compiler, CallsColorTransformIntrinsics := intrinsics\<rparr>)
       attributes stride varyings vs fs cs at = ([], Inr (None, msg))"
    (is "\<exists>msg. ?R msg")
proof -
  let ?K' = "K\<lparr>convertProgram := compiler, CallsColorTransformIntrinsics := intrinsics\<rparr>"
  have lim: "check_vertex_offsets_and_stride ?K' attributes stride =
      check_vertex_offsets_and_stride K attributes stride"
    by (rule layout_limits)
  have maxv: "kMaxVaryings ?K' = kMaxVaryings K" by simp
  show ?thesis
  proof (cases "fst (check_vertex_offsets_and_stride K attributes stride)")
    case False
    then have "?R (snd (check_vertex_offsets_and_stride K attributes stride))"
      using Make_layout_failure [of K attributes stride varyings vs fs cs at]
        Make_layout_failure [of ?K' attributes stride varyings vs fs cs at]
      by (simp add: lim layout_message)
    then show ?thesis ..
  next
    case layout: True
    show ?thesis
    proof (cases "\<forall>a\<in>set attributes. check_name (attr_name a)")
      case False
      then have "\<exists>a\<in>set attributes. \<not> check_name (attr_name a)" by blast
      then obtain pre a post where d: "attributes = pre @ a # post"
        "\<forall>b\<in>set pre. check_name (attr_name b)" "\<not> check_name (attr_name a)"
        using first_invalid [of attributes "\<lambda>a. check_name (attr_name a)"] by blast
      have "?R (dquote @ c_str (attr_name a) @ dquote @ '' is not a valid attribute name.'')"
        using Make_attribute_name_failure [OF layout d, of varyings vs fs cs at]
          Make_attribute_name_failure [of ?K', OF _ d, of stride varyings vs fs cs at] layout
        by (simp add: lim)
      then show ?thesis ..
    next
      case names: True
      show ?thesis
      proof (cases "unat (kMaxVaryings K) < length varyings")
        case True
        have "?R (''A maximum of '' @ zu (kMaxVaryings K) @ '' varyings is allowed.'')"
          using Make_varying_count_failure [OF layout names True, of vs fs cs at]
            Make_varying_count_failure [of ?K' attributes stride varyings vs fs cs at]
            layout names True
          by (simp add: lim)
        then show ?thesis ..
      next
        case False
        then have len: "length varyings \<le> unat (kMaxVaryings K)" by simp
        from assms names have "\<exists>v\<in>set varyings. \<not> check_name (var_name v)" by blast
        then obtain pre v post where d: "varyings = pre @ v # post"
          "\<forall>w\<in>set pre. check_name (var_name w)" "\<not> check_name (var_name v)"
          using first_invalid [of varyings "\<lambda>v. check_name (var_name v)"] by blast
        have "?R (dquote @ c_str (var_name v) @ dquote @ '' is not a valid varying name.'')"
          using Make_varying_name_failure [OF layout names len d, of vs fs cs at]
            Make_varying_name_failure [of ?K' attributes stride varyings pre v post vs fs cs at]
            layout names len d
          by (simp add: lim)
        then show ?thesis ..
      qed
    qed
  qed
qed

lemma compile_stages_cases:
  "convertProgram K kCustomMeshVertex (c_str vs) es2 = Inl err \<Longrightarrow>
     compile_stages K attributes stride varyings vs fs cs at =
       ([(kCustomMeshVertex, c_str vs)], Inr (None, ''VS: '' @ c_str err))"
  "convertProgram K kCustomMeshVertex (c_str vs) es2 = Inr vsP \<Longrightarrow> \<not> has_main vsP \<Longrightarrow>
     compile_stages K attributes stride varyings vs fs cs at =
       ([(kCustomMeshVertex, c_str vs)], Inr (None, ''Vertex shader must have main function.''))"
  "convertProgram K kCustomMeshVertex (c_str vs) es2 = Inr vsP \<Longrightarrow> has_main vsP \<Longrightarrow>
   CallsColorTransformIntrinsics K vsP \<Longrightarrow>
     compile_stages K attributes stride varyings vs fs cs at =
       ([(kCustomMeshVertex, c_str vs)],
        Inr (None, ''Color transform intrinsics are not permitted in custom mesh shaders''))"
  "stage_passes K kCustomMeshVertex (c_str vs) vsP \<Longrightarrow>
   convertProgram K kCustomMeshFragment (c_str fs) es2 = Inl err \<Longrightarrow>
     compile_stages K attributes stride varyings vs fs cs at =
       ([(kCustomMeshVertex, c_str vs), (kCustomMeshFragment, c_str fs)], Inr (None, ''FS: '' @ c_str err))"
  "stage_passes K kCustomMeshVertex (c_str vs) vsP \<Longrightarrow>
   convertProgram K kCustomMeshFragment (c_str fs) es2 = Inr fsP \<Longrightarrow> \<not> has_main fsP \<Longrightarrow>
     compile_stages K attributes stride varyings vs fs cs at =
       ([(kCustomMeshVertex, c_str vs), (kCustomMeshFragment, c_str fs)],
        Inr (None, ''Fragment shader must have main function.''))"
  "stage_passes K kCustomMeshVertex (c_str vs) vsP \<Longrightarrow>
   convertProgram K kCustomMeshFragment (c_str fs) es2 = Inr fsP \<Longrightarrow> has_main fsP \<Longrightarrow>
   CallsColorTransformIntrinsics K fsP \<Longrightarrow>
     compile_stages K attributes stride varyings vs fs cs at =
       ([(kCustomMeshVertex, c_str vs), (kCustomMeshFragment, c_str fs)],
        Inr (None, ''Color transform intrinsics are not permitted in custom mesh shaders''))"
  by (simp_all add: compile_stages_def RETURN_FAILURE_def)

lemma stages_pass_iff:
  "stages_pass K attributes stride varyings vs fs vsP fsP \<longleftrightarrow>
     validated K attributes stride varyings \<and> stage_passes K kCustomMeshVertex (c_str vs) vsP \<and>
     stage_passes K kCustomMeshFragment (c_str fs) fsP"
  by (auto simp: stages_pass_def)

text \<open>The synthesized texts hold no NUL, so the compiler gets them whole.\<close>

lemma type_string_no_nul:
  "CHR 0x00 \<notin> set (attribute_type_string t)" "CHR 0x00 \<notin> set (varying_type_string u)"
  by (cases t, simp_all) (cases u, simp_all)

lemma attributes_loop_no_nul:
  "CHR 0x00 \<notin> set s \<Longrightarrow> CHR 0x00 \<notin> set (attributes_loop attributes s)"
  by (induction attributes arbitrary: s) (simp_all add: c_str_no_nul type_string_no_nul)

lemma varyings_loop_no_nul:
  "CHR 0x00 \<notin> set s \<Longrightarrow> CHR 0x00 \<notin> set (varyings_loop varyings s)"
  by (induction varyings arbitrary: s) (simp_all add: c_str_no_nul type_string_no_nul)

lemma attributesStruct_no_nul: "CHR 0x00 \<notin> set (attributesStruct attributes)"
  by (simp add: attributesStruct_def attributes_loop_no_nul)

lemma varyingStruct_no_nul: "CHR 0x00 \<notin> set (varyingStruct varyings)"
  by (simp add: varyingStruct_def Let_def varyings_loop_no_nul)

lemma fullVS_text:
  "fullVS attributes varyings vs =
     varyingStruct varyings @ attributesStruct attributes @ c_str vs"
  by (simp add: fullVS_def c_str_whole attributesStruct_no_nul varyingStruct_no_nul)

lemma fullFS_text: "fullFS varyings fs = varyingStruct varyings @ c_str fs"
  by (simp add: fullFS_def c_str_whole varyingStruct_no_nul)

lemma c_str_full:
  "c_str (fullVS attributes varyings vs) = fullVS attributes varyings vs"
  "c_str (fullFS varyings fs) = fullFS varyings fs"
  by (rule c_str_whole, simp add: fullVS_text fullFS_text attributesStruct_no_nul
      varyingStruct_no_nul c_str_no_nul)+

section \<open>Evaluation in the concrete environment\<close>

lemma check_name_examples:
  "check_name ''x''" "check_name ''pos''" "check_name ''color''"
  "\<not> check_name ''a b''" "\<not> check_name ''a;b''" "\<not> check_name []"
  by (simp_all add: check_name_def isalnum_classic_def)

lemma c_str_examples:
  "c_str ''vs'' = ''vs''" "c_str ''fs'' = ''fs''" "c_str ''x'' = ''x''"
  "c_str ''a;b'' = ''a;b''" "c_str ''a b'' = ''a b''" "c_str ''uv'' = ''uv''"
  "c_str ''void main() {}'' = ''void main() {}''"
  "c_str ''float2 main() {}'' = ''float2 main() {}''"
  "c_str (''a'' @ [CHR 0x00] @ ''b'') = ''a''" "c_str nul_body = ''v''"
  by (simp_all add: c_str_def nul_body_def)

lemma env0_sel:
  "kMaxAttributes (env0 d) = 8" "kMaxVaryings (env0 d) = 6" "kMaxStride (env0 d) = 1024"
  "kStrideAlignment (env0 d) = 4" "kOffsetAlignment (env0 d) = 4" "SK_DEBUG (env0 d) = True"
  "convertProgram (env0 d) = stand_in_compiler d"
  "CallsColorTransformIntrinsics (env0 d) = (\<lambda>p. False)"
  "hash_fn (env0 d) = stand_in_hash"
  by (simp_all add: env0_def)

lemma layout_x: "check_vertex_offsets_and_stride (env0 d) [x_attr] 4 = (True, [])"
  by (simp add: check_vertex_offsets_and_stride_def env0_sel x_attr_def RETURN_SUCCESS_def RETURN_ERROR_def)

lemma x_attr_sel:
  "attr_name x_attr = ''x''" "attr_type x_attr = Attribute_kFloat" "attr_offset x_attr = 0"
  by (simp_all add: x_attr_def)

lemma stand_in_programs:
  "stand_in_compiler d kCustomMeshVertex src st =
     Inr \<lparr>elements = [FunctionDefinition vertex_main], fSource = src\<rparr>"
  "stand_in_compiler d kCustomMeshFragment src st =
     Inr \<lparr>elements = [OtherElement, FunctionDefinition d], fSource = src\<rparr>"
  "has_main \<lparr>elements = [FunctionDefinition vertex_main], fSource = src\<rparr>"
  "has_main \<lparr>elements = [OtherElement, FunctionDefinition d], fSource = src\<rparr> = isMain d"
  "get_fs_color_type_and_local_coords (env0 d')
     \<lparr>elements = [OtherElement, FunctionDefinition d], fSource = src\<rparr> =
     (if isMain d then fs_contract_of_main True d else Inl Unreachable)"
  by (simp_all add: stand_in_compiler_def has_main_def vertex_main_def
      get_fs_color_type_and_local_coords_def env0_sel)

lemma plain_contract: "isMain plain_fs_main"
  "fs_contract_of_main dbg plain_fs_main = Inr (ColorType_kNone, False)"
  by (simp_all add: fs_contract_of_main_def plain_fs_main_def)

lemma plain_compile:
  "compile_stages (env0 plain_fs_main) attributes stride varyings vs fs cs at =
     ([(kCustomMeshVertex, c_str vs), (kCustomMeshFragment, c_str fs)],
      Inr (Some (SkCustomMeshSpecification_ctor (env0 plain_fs_main) attributes stride varyings
             \<lparr>elements = [FunctionDefinition vertex_main], fSource = c_str vs\<rparr>
             \<lparr>elements = [OtherElement, FunctionDefinition plain_fs_main], fSource = c_str fs\<rparr>
             ColorType_kNone False None kPremul_SkAlphaType), []))"
  by (simp add: compile_stages_def env0_sel stand_in_programs plain_contract finish_specification_def)

lemma plain_make:
  "MakeFromSourceWithStructs (env0 plain_fs_main) [x_attr] 4 [] ''vs'' ''fs'' cs at =
     ([(kCustomMeshVertex, ''vs''), (kCustomMeshFragment, ''fs'')], Inr (Some plain_spec, []))"
  by (simp add: MakeFromSourceWithStructs_def layout_x x_attr_sel check_name_examples
      plain_compile plain_spec_def c_str_examples)

lemma color_contract: "isMain color_fs_main"
  "fs_contract_of_main dbg color_fs_main = Inr (ColorType_kHalf4, True)"
  by (simp_all add: fs_contract_of_main_def color_fs_main_def)

lemma stages_pass_x:
  "isMain d \<Longrightarrow>
   stages_pass (env0 d) [x_attr] 4 [] vs fs
     \<lparr>elements = [FunctionDefinition vertex_main], fSource = c_str vs\<rparr>
     \<lparr>elements = [OtherElement, FunctionDefinition d], fSource = c_str fs\<rparr>"
  by (simp add: stages_pass_def layout_x x_attr_sel check_name_examples env0_sel
      stand_in_programs)

lemma zu_digit: "zu 4 = ''4''" "zu 6 = ''6''" "zu 8 = ''8''"
  by (simp_all add: zu_def string_of_nat.simps char_of_def bit_iff_odd)

lemma bad_attr_sel:
  "attr_name bad_attr = ''a;b''" "attr_type bad_attr = Attribute_kFloat" "attr_offset bad_attr = 0"
  by (simp_all add: bad_attr_def)

lemma layout_bad: "check_vertex_offsets_and_stride (env0 d) [bad_attr] 4 = (True, [])"
  by (simp add: check_vertex_offsets_and_stride_def env0_sel bad_attr_sel RETURN_SUCCESS_def
      RETURN_ERROR_def)

lemma layout_bad_zero:
  "check_vertex_offsets_and_stride (env0 d) [bad_attr] 0 =
     (False, ''Vertex stride must be a non-zero multiple of 4.'')"
  by (simp add: check_vertex_offsets_and_stride_def env0_sel RETURN_ERROR_def zu_digit)

lemma varying_sel:
  "var_name good_varying = ''uv''" "var_name bad_varying = ''a b''"
  by (simp_all add: good_varying_def bad_varying_def)

lemma check_name_varyings:
  "check_name (var_name good_varying)" "\<not> check_name (var_name bad_varying)"
  by (simp_all add: varying_sel check_name_def isalnum_classic_def)

lemma seven_varyings_facts:
  "length seven_varyings = 7" "bad_varying \<in> set seven_varyings"
  by (simp_all add: seven_varyings_def)

lemma make_x:
  "MakeFromSourceWithStructs (env0 plain_fs_main) [x_attr] 4 [] vs fs cs at =
     ([(kCustomMeshVertex, c_str vs), (kCustomMeshFragment, c_str fs)],
      Inr (Some (SkCustomMeshSpecification_ctor (env0 plain_fs_main) [x_attr] 4 []
             \<lparr>elements = [FunctionDefinition vertex_main], fSource = c_str vs\<rparr>
             \<lparr>elements = [OtherElement, FunctionDefinition plain_fs_main], fSource = c_str fs\<rparr>
             ColorType_kNone False None kPremul_SkAlphaType), []))"
  by (simp add: MakeFromSourceWithStructs_def layout_x x_attr_sel check_name_examples
      plain_compile)

lemma made_spec_Make:
  "SkCustomMeshSpecification_Make (env0 plain_fs_main) [x_attr] 4 [] ''vs'' ''fs'' cs at =
     ([(kCustomMeshVertex, fullVS [x_attr] [] ''vs''), (kCustomMeshFragment, fullFS [] ''fs'')],
      Inr (Some made_spec, []))"
  by (simp add: SkCustomMeshSpecification_Make_def make_x made_spec_def c_str_full)

lemma example_strides: "fStride plain_spec = 4" "fStride made_spec = 4"
  by (simp_all add: plain_spec_def made_spec_def ctor_fields)

lemma validate_example:
  "fStride s = 4 \<Longrightarrow>
   validate (\<lparr>fSpec = Some s, fMode = kTriangles, fVB = Some \<lparr>vb_size = 12\<rparr>, fIB = None,
      fVCount = 3, fVOffset = 0, fICount = 0, fIOffset = 0,
      fBounds = SkRect_MakeEmpty\<rparr> :: ('h, int) SkCustomMesh) = Inr True"
  "fStride s = 4 \<Longrightarrow>
   validate (\<lparr>fSpec = Some s, fMode = kTriangles, fVB = Some \<lparr>vb_size = 12\<rparr>, fIB = None,
      fVCount = 2, fVOffset = 0, fICount = 0, fIOffset = 0,
      fBounds = SkRect_MakeEmpty\<rparr> :: ('h, int) SkCustomMesh) = Inr False"
  by (simp_all add: validate_def validate_indices_def SkSafeMath_mul_def SkSafeMath_add_def)

lemma triangle_mesh_record:
  "triangle_mesh =
     \<lparr>fSpec = Some plain_spec, fMode = kTriangles, fVB = Some \<lparr>vb_size = 12\<rparr>, fIB = None,
      fVCount = 3, fVOffset = 0, fICount = 0, fIOffset = 0, fBounds = SkRect_MakeEmpty\<rparr>"
  by (simp add: triangle_mesh_def SkCustomMesh_default_def)

lemma nul_attr_facts:
  "attr_name nul_attr = ''a'' @ [CHR 0x00] @ ''b''" "\<not> check_name (attr_name nul_attr)"
  "check_vertex_offsets_and_stride (env0 d) [nul_attr] 4 = (True, [])"
  by (simp_all add: nul_attr_def check_name_def isalnum_classic_def
      check_vertex_offsets_and_stride_def env0_sel RETURN_SUCCESS_def RETURN_ERROR_def)

section \<open>Layout validation\<close>

lemma nat_pow2_of_and_pred:
  fixes k :: nat
  shows "0 < k \<Longrightarrow> k AND (k - 1) = 0 \<Longrightarrow> \<exists>n. k = 2 ^ n"
proof (induction k rule: nat_bit_induct)
  case zero
  then show ?case by simp
next
  case (even j)
  have half: "(2 * j - Suc 0) div 2 = j - Suc 0"
    using even.hyps by arith
  have "(2 * j) AND (2 * j - 1) = 2 * (j AND (j - 1))"
    by (subst and_nat_rec) (simp add: half)
  with even.prems have "j AND (j - 1) = 0" by simp
  with even.IH even.hyps obtain n where "j = 2 ^ n" by auto
  then have "2 * j = 2 ^ Suc n" by simp
  then show ?case by blast
next
  case (odd j)
  have "Suc (2 * j) AND (Suc (2 * j) - 1) = 2 * j"
    by (subst and_nat_rec) simp
  with odd.prems have "j = 0" by simp
  then have "Suc (2 * j) = 2 ^ 0" by simp
  then show ?case by blast
qed

lemma unat_exp_64:
  assumes "n < 64"
  shows "unat (2 ^ n :: 64 word) = 2 ^ n"
proof -
  have "(2 ^ n :: 64 word) = of_nat (2 ^ n)" by simp
  then have "unat (2 ^ n :: 64 word) = 2 ^ n mod 2 ^ LENGTH(64)"
    by (simp only: unat_of_nat)
  moreover have "(2::nat) ^ n < 2 ^ LENGTH(64)"
    using assms by (simp only: len_num1 power_strict_increasing_iff) simp
  ultimately show ?thesis by (simp only: mod_less)
qed

lemma SkIsPow2_exp:
  assumes "SkIsPow2 v" and "v \<noteq> 0"
  shows "\<exists>n<64. v = 2 ^ n"
proof -
  have "unat (v AND (v - 1)) = unat v AND (unat v - 1)"
    using assms(2) by (simp add: unsigned_and_eq unat_minus_one)
  with assms(1) have "unat v AND (unat v - 1) = 0"
    by (simp add: SkIsPow2_def)
  moreover have "0 < unat v" using assms(2) by (simp add: unat_gt_0)
  ultimately obtain n where n: "unat v = 2 ^ n"
    using nat_pow2_of_and_pred by blast
  have "unat v < 2 ^ LENGTH(64)" by (rule unsigned_less)
  with n have "(2::nat) ^ n < 2 ^ 64" by simp
  then have n64: "n < 64" by (rule power_less_imp_less_exp [rotated]) simp
  then have "unat v = unat (2 ^ n :: 64 word)"
    using n by (simp only: unat_exp_64)
  then have "v = 2 ^ n" by (simp only: word_unat_eq_iff)
  with n64 show ?thesis by blast
qed

text \<open>For a power of two, the mask test of the code is divisibility.\<close>

lemma mask_zero_iff_dvd:
  assumes "SkIsPow2 a" and "a \<noteq> 0"
  shows "x AND (a - 1) = 0 \<longleftrightarrow> unat a dvd unat x"
proof -
  from assms obtain n where n: "n < 64" "a = 2 ^ n"
    using SkIsPow2_exp by blast
  have "unat a = 2 ^ n" using n by (simp only: unat_exp_64)
  then show ?thesis
    using n by (simp add: and_mask_dvd_nat mask_eq_decr_exp)
qed

lemma attribute_type_size_le: "unat (attribute_type_size t) \<le> 16"
  by (cases t) simp_all

text \<open>Below a stride of at most 2048 the sum of offset and size does not wrap.\<close>

lemma offset_plus_size_no_overflow:
  fixes a b stride :: "64 word"
  assumes "a < stride" "stride \<le> 2048" "unat b \<le> 16"
  shows "unat (a + b) = unat a + unat b"
proof -
  have "unat a < unat stride" using assms(1) by (simp add: word_less_nat_alt)
  moreover have "unat stride \<le> 2048" using assms(2) by (simp add: word_le_nat_alt)
  ultimately have "unat a + unat b < 2 ^ LENGTH(64)" using assms(3) by simp
  then show ?thesis by (simp only: unat_add_lem)
qed

lemma check_attributes_all_pass:
  "(\<forall>a\<in>set as. attribute_passes K stride a) \<Longrightarrow> check_attributes K stride as = RETURN_SUCCESS"
  by (induction as) (auto simp: attribute_passes_def)

lemma check_attributes_fst:
  "fst (check_attributes K stride as) \<longleftrightarrow> (\<forall>a\<in>set as. attribute_passes K stride a)"
  by (induction as) (auto simp: attribute_passes_def RETURN_ERROR_def RETURN_SUCCESS_def)

lemma check_attributes_skip:
  "(\<forall>b\<in>set pre. attribute_passes K stride b) \<Longrightarrow>
   check_attributes K stride (pre @ rest) = check_attributes K stride rest"
  by (induction pre) (auto simp: attribute_passes_def)

lemma attribute_passes_iff:
  assumes "SkIsPow2 (kOffsetAlignment K)" and "4 \<le> kOffsetAlignment K" and "stride \<le> 2048"
  shows "attribute_passes K stride a \<longleftrightarrow> offset_multiple K a \<and> within_stride stride a"
proof -
  have nz: "kOffsetAlignment K \<noteq> 0" using assms(2) by auto
  have al: "attr_offset a AND (kOffsetAlignment K - 1) = 0 \<longleftrightarrow> offset_multiple K a"
    using assms(1) nz by (rule mask_zero_iff_dvd)
  show ?thesis
  proof (cases "attr_offset a < stride")
    case True
    then have "unat (attr_offset a + attribute_type_size (attr_type a)) =
               unat (attr_offset a) + unat (attribute_type_size (attr_type a))"
      using assms(3) attribute_type_size_le by (rule offset_plus_size_no_overflow)
    then show ?thesis
      using True al by (simp add: attribute_passes_def word_le_nat_alt word_less_nat_alt not_less not_le)
  next
    case False
    then show ?thesis by (simp add: attribute_passes_def not_less)
  qed
qed

text \<open>
  C1. Layout validation succeeds exactly when the attribute list is non-empty and has at
  most \<open>kMaxAttributes\<close> entries, the stride is a non-zero multiple of
  \<open>kStrideAlignment\<close> and at most \<open>kMaxStride\<close>, and every attribute's offset is a
  multiple of \<open>kOffsetAlignment\<close>, is below the stride, and its exact sum with the size
  of the type is at most the stride. The rules are tried in this order and the first one
  that fails gives the message; among the attributes, the first one that breaks a rule,
  its alignment before its extent. The sum that the code computes wraps, so its agreeing
  with the exact sum says that it does not overflow once the offset is below the stride.
  The limits are any that meet the static assertions, with \<open>kOffsetAlignment\<close> a power
  of two as its mask test supposes.
\<close>

theorem check_vertex_offsets_and_stride_rules:
  assumes "static_asserts K" and "SkIsPow2 (kOffsetAlignment K)"
  shows
  "(fst (check_vertex_offsets_and_stride K attrs stride) \<longleftrightarrow>
      count_rule K attrs \<and> stride_multiple K stride \<and> stride \<le> kMaxStride K \<and>
      (\<forall>a\<in>set attrs. offset_multiple K a \<and> within_stride stride a)) \<and>
   (fst (check_vertex_offsets_and_stride K attrs stride) \<longrightarrow>
      check_vertex_offsets_and_stride K attrs stride = (True, [])) \<and>
   (attrs = [] \<longrightarrow>
      check_vertex_offsets_and_stride K attrs stride =
        (False, ''At least 1 attribute is required.'')) \<and>
   (attrs \<noteq> [] \<and> unat (kMaxAttributes K) < length attrs \<longrightarrow>
      check_vertex_offsets_and_stride K attrs stride =
        (False, ''A maximum of '' @ zu (kMaxAttributes K) @ '' attributes is allowed.'')) \<and>
   (count_rule K attrs \<and> \<not> stride_multiple K stride \<longrightarrow>
      check_vertex_offsets_and_stride K attrs stride =
        (False, ''Vertex stride must be a non-zero multiple of '' @ zu (kStrideAlignment K) @ ''.'')) \<and>
   (count_rule K attrs \<and> stride_multiple K stride \<and> kMaxStride K < stride \<longrightarrow>
      check_vertex_offsets_and_stride K attrs stride =
        (False, ''Stride cannot exceed '' @ zu (kMaxStride K) @ ''.'')) \<and>
   (count_rule K attrs \<and> stride_multiple K stride \<and> stride \<le> kMaxStride K \<and>
    attrs = pre @ a # post \<and> (\<forall>b\<in>set pre. offset_multiple K b \<and> within_stride stride b) \<and>
    \<not> offset_multiple K a \<longrightarrow>
      check_vertex_offsets_and_stride K attrs stride =
        (False, ''Attribute offset must be a multiple of '' @ zu (kOffsetAlignment K) @ ''.'')) \<and>
   (count_rule K attrs \<and> stride_multiple K stride \<and> stride \<le> kMaxStride K \<and>
    attrs = pre @ a # post \<and> (\<forall>b\<in>set pre. offset_multiple K b \<and> within_stride stride b) \<and>
    offset_multiple K a \<and> \<not> within_stride stride a \<longrightarrow>
      check_vertex_offsets_and_stride K attrs stride =
        (False, ''Attribute offset plus size cannot exceed stride.''))"
proof -
  have pow: "SkIsPow2 (kStrideAlignment K)" and nz: "kStrideAlignment K \<noteq> 0"
    and off4: "4 \<le> kOffsetAlignment K" and max: "kMaxStride K \<le> 2048"
    using assms(1) by (auto simp: static_asserts_def)
  have sm: "stride AND (kStrideAlignment K - 1) = 0 \<longleftrightarrow> unat (kStrideAlignment K) dvd unat stride"
    using pow nz by (rule mask_zero_iff_dvd)
  have nzo: "kOffsetAlignment K \<noteq> 0" using off4 by auto
  have om: "attr_offset a AND (kOffsetAlignment K - 1) = 0 \<longleftrightarrow> offset_multiple K a"
    using assms(2) nzo by (rule mask_zero_iff_dvd)
  have ap: "attribute_passes K stride b \<longleftrightarrow> offset_multiple K b \<and> within_stride stride b"
    if "stride \<le> kMaxStride K" for b
    using assms(2) off4 that max by (intro attribute_passes_iff) auto
  have c1: "fst (check_vertex_offsets_and_stride K attrs stride) \<longleftrightarrow>
      count_rule K attrs \<and> stride_multiple K stride \<and> stride \<le> kMaxStride K \<and>
      (\<forall>a\<in>set attrs. offset_multiple K a \<and> within_stride stride a)"
    using sm ap by (auto simp: check_vertex_offsets_and_stride_def RETURN_ERROR_def
        check_attributes_fst not_less not_le)
  have c2: "check_vertex_offsets_and_stride K attrs stride = (True, [])"
    if "fst (check_vertex_offsets_and_stride K attrs stride)"
    using that
    by (auto simp: check_vertex_offsets_and_stride_def RETURN_ERROR_def RETURN_SUCCESS_def
        check_attributes_fst check_attributes_all_pass split: if_splits)
  have c3: "check_vertex_offsets_and_stride K attrs stride =
        (False, ''Attribute offset must be a multiple of '' @ zu (kOffsetAlignment K) @ ''.'')"
    if "count_rule K attrs" "stride_multiple K stride" "stride \<le> kMaxStride K"
      "attrs = pre @ a # post" "\<forall>b\<in>set pre. offset_multiple K b \<and> within_stride stride b"
      "\<not> offset_multiple K a"
  proof -
    have "\<forall>b\<in>set pre. attribute_passes K stride b" using that(3,5) ap by blast
    then have "check_attributes K stride attrs = check_attributes K stride (a # post)"
      unfolding that(4) by (rule check_attributes_skip)
    then show ?thesis
      using that(1,2,3,6) sm om
      by (simp add: check_vertex_offsets_and_stride_def RETURN_ERROR_def not_less)
  qed
  have c4: "check_vertex_offsets_and_stride K attrs stride =
        (False, ''Attribute offset plus size cannot exceed stride.'')"
    if "count_rule K attrs" "stride_multiple K stride" "stride \<le> kMaxStride K"
      "attrs = pre @ a # post" "\<forall>b\<in>set pre. offset_multiple K b \<and> within_stride stride b"
      "offset_multiple K a" "\<not> within_stride stride a"
  proof -
    have "\<forall>b\<in>set pre. attribute_passes K stride b" using that(3,5) ap by blast
    then have "check_attributes K stride attrs = check_attributes K stride (a # post)"
      unfolding that(4) by (rule check_attributes_skip)
    moreover have "\<not> attribute_passes K stride a" using ap [OF that(3)] that(7) by blast
    then have "attr_offset a \<ge> stride \<or> attr_offset a + attribute_type_size (attr_type a) > stride"
      using om that(6) by (simp add: attribute_passes_def)
    ultimately show ?thesis
      using that(1,2,3,6) sm om
      by (simp add: check_vertex_offsets_and_stride_def RETURN_ERROR_def not_less)
  qed
  have c5: "check_vertex_offsets_and_stride K attrs stride =
        (False, ''Vertex stride must be a non-zero multiple of '' @ zu (kStrideAlignment K) @ ''.'')"
    if "count_rule K attrs" "\<not> stride_multiple K stride"
    using that sm by (auto simp: check_vertex_offsets_and_stride_def RETURN_ERROR_def)
  have c6: "check_vertex_offsets_and_stride K attrs stride =
        (False, ''Stride cannot exceed '' @ zu (kMaxStride K) @ ''.'')"
    if "count_rule K attrs" "stride_multiple K stride" "kMaxStride K < stride"
    using that sm by (auto simp: check_vertex_offsets_and_stride_def RETURN_ERROR_def)
  show ?thesis
    using c1 c2 c3 c4 c5 c6
    by (simp add: check_vertex_offsets_and_stride_def RETURN_ERROR_def)
qed


theorem check_vertex_offsets_and_stride_rules_witness:
  "static_asserts (env0 plain_fs_main) \<and> SkIsPow2 (kOffsetAlignment (env0 plain_fs_main)) \<and>
   check_vertex_offsets_and_stride (env0 plain_fs_main) [pos_attr, color_attr] 12 = (True, []) \<and>
   check_vertex_offsets_and_stride (env0 plain_fs_main) [pos_attr, color_attr] 8 =
     (False, ''Attribute offset plus size cannot exceed stride.'')"
proof -
  have h1: "static_asserts (env0 plain_fs_main)"
    by (simp add: static_asserts_def env0_def SkIsPow2_def)
  have h2: "SkIsPow2 (kOffsetAlignment (env0 plain_fs_main))"
    by (simp add: env0_def SkIsPow2_def)
  have "check_vertex_offsets_and_stride (env0 plain_fs_main) [pos_attr, color_attr] 12 = (True, [])"
    using check_vertex_offsets_and_stride_rules
      [OF h1 h2, of "[pos_attr, color_attr]" 12 "[]" pos_attr "[color_attr]"]
    by (simp add: env0_def pos_attr_def color_attr_def)
  moreover have "check_vertex_offsets_and_stride (env0 plain_fs_main) [pos_attr, color_attr] 8 =
     (False, ''Attribute offset plus size cannot exceed stride.'')"
    using check_vertex_offsets_and_stride_rules
      [OF h1 h2, of "[pos_attr, color_attr]" 8 "[pos_attr]" color_attr "[]"]
    by (simp add: env0_def pos_attr_def color_attr_def)
  ultimately show ?thesis using h1 h2 by simp
qed

section \<open>Mesh validation\<close>

lemma SkIsAlign2_even: "SkIsAlign2 x \<longleftrightarrow> even (unat x)"
proof -
  have "x AND 1 = 0 \<longleftrightarrow> unat (x AND 1) = 0" by (simp only: unat_0_iff)
  also have "\<dots> \<longleftrightarrow> unat x AND 1 = 0" by (simp add: unsigned_and_eq)
  also have "\<dots> \<longleftrightarrow> even (unat x)" by (simp add: and_one_eq even_iff_mod_2_eq_zero)
  finally show ?thesis by (simp add: SkIsAlign2_def)
qed

lemma word_mod_zero_iff: "(x::64 word) mod y = 0 \<longleftrightarrow> unat x mod unat y = 0"
  by (simp add: unat_0_iff [symmetric] unat_mod_distrib del: unat_0_iff)

lemma checked_extent:
  fixes x y z s :: "64 word"
  shows "unat x * unat y < 2 ^ 64 \<and> unat (x * y) + unat z < 2 ^ 64 \<and> x * y + z \<le> s \<longleftrightarrow>
         unat x * unat y + unat z \<le> unat s"
proof
  assume a: "unat x * unat y < 2 ^ 64 \<and> unat (x * y) + unat z < 2 ^ 64 \<and> x * y + z \<le> s"
  then have m: "unat (x * y) = unat x * unat y"
    using unat_mult_lem [of x y] by simp
  from a have "unat (x * y + z) = unat (x * y) + unat z"
    using unat_add_lem [of "x * y" z] by simp
  with a m show "unat x * unat y + unat z \<le> unat s"
    by (simp add: word_le_nat_alt)
next
  assume b: "unat x * unat y + unat z \<le> unat s"
  have "unat s < 2 ^ LENGTH(64)" by (rule unsigned_less)
  with b have lt: "unat x * unat y + unat z < 2 ^ 64" by simp
  then have m: "unat (x * y) = unat x * unat y"
    using unat_mult_lem [of x y] by simp
  with lt have "unat (x * y + z) = unat (x * y) + unat z"
    using unat_add_lem [of "x * y" z] by simp
  with b m lt show "unat x * unat y < 2 ^ 64 \<and> unat (x * y) + unat z < 2 ^ 64 \<and> x * y + z \<le> s"
    by (simp add: word_le_nat_alt)
qed

lemma min_vcount_le: "\<not> c < min_vcount_for_mode mode \<longleftrightarrow> 3 \<le> unat c"
  by (cases mode) (simp_all add: word_less_nat_alt not_less)

lemma validate_indices_wrapped:
  "validate_indices m sm \<longleftrightarrow>
     fOK sm \<and>
     (case fIB m of
        Some ib \<Rightarrow>
          min_vcount_for_mode (fMode m) \<le> fICount m \<and>
          (unat (2 :: size_t) * unat (fICount m) < 2 ^ 64 \<and>
           unat (2 * fICount m) + unat (fIOffset m) < 2 ^ 64 \<and>
           2 * fICount m + fIOffset m \<le> ib_size ib) \<and>
          fIOffset m AND 1 = 0
      | None \<Rightarrow>
          min_vcount_for_mode (fMode m) \<le> fVCount m \<and> fICount m = 0 \<and> fIOffset m = 0)"
  by (auto simp: validate_indices_def SkSafeMath_mul_def SkSafeMath_add_def SkIsAlign2_def
      not_less not_le split: option.splits)

lemma validate_indices_exact:
  "validate_indices m sm \<longleftrightarrow>
     fOK sm \<and>
     (case fIB m of
        Some ib \<Rightarrow>
          3 \<le> unat (fICount m) \<and>
          2 * unat (fICount m) + unat (fIOffset m) \<le> unat (ib_size ib) \<and>
          even (unat (fIOffset m))
      | None \<Rightarrow> 3 \<le> unat (fVCount m) \<and> fICount m = 0 \<and> fIOffset m = 0)"
proof -
  have two: "unat (2 :: size_t) = 2" by simp
  show ?thesis
    unfolding validate_indices_wrapped checked_extent
    using min_vcount_le [of "fICount m" "fMode m"] min_vcount_le [of "fVCount m" "fMode m"]
      SkIsAlign2_even [of "fIOffset m"]
    by (simp add: two SkIsAlign2_def not_less split: option.splits)
qed

lemma validate_wrapped:
  assumes "\<And>spec. fSpec m = Some spec \<Longrightarrow> fStride spec \<noteq> 0"
  shows "validate m = Inr
     (\<exists>spec vb. fSpec m = Some spec \<and> fVB m = Some vb \<and> fVCount m \<noteq> 0 \<and>
        (unat (fStride spec) * unat (fVCount m) < 2 ^ 64 \<and>
         unat (fStride spec * fVCount m) + unat (fVOffset m) < 2 ^ 64 \<and>
         fStride spec * fVCount m + fVOffset m \<le> vb_size vb) \<and>
        fVOffset m mod fStride spec = 0 \<and>
        validate_indices m \<lparr>fOK = True\<rparr>)"
  using assms
  by (auto simp: validate_def SkSafeMath_mul_def SkSafeMath_add_def not_less
      validate_indices_wrapped split: option.splits)

text \<open>
  C2. For a mesh whose specification, when it has one, has a non-zero stride (every
  specification that was built has one), \<open>validate\<close> returns a truth value, and it
  returns true exactly when: the specification and the vertex buffer are present and the
  vertex count is not zero; stride times vertex count plus vertex offset is at most the
  size of the vertex buffer; the vertex offset is a multiple of the stride; with an index
  buffer, the index count is at least 3, twice the index count plus the index offset is at
  most the size of the index buffer, and the index offset is even; without one, the
  vertex count is at least 3 and the index count and offset are zero. The first
  equivalence states the bounds with exact arithmetic; the second states them with the
  wrapping arithmetic of \<open>size_t\<close> together with the absence of overflow in every
  product and sum that was computed.
\<close>

theorem validate_true_iff:
  assumes "\<And>spec. fSpec m = Some spec \<Longrightarrow> fStride spec \<noteq> 0"
  shows
  "(validate m = Inr True \<or> validate m = Inr False) \<and>
   (validate m = Inr True \<longleftrightarrow>
     (\<exists>spec vb. fSpec m = Some spec \<and> fVB m = Some vb \<and> fVCount m \<noteq> 0 \<and>
        unat (fStride spec) * unat (fVCount m) + unat (fVOffset m) \<le> unat (vb_size vb) \<and>
        unat (fVOffset m) mod unat (fStride spec) = 0 \<and>
        (case fIB m of
           Some ib \<Rightarrow>
             3 \<le> unat (fICount m) \<and>
             2 * unat (fICount m) + unat (fIOffset m) \<le> unat (ib_size ib) \<and>
             even (unat (fIOffset m))
         | None \<Rightarrow> 3 \<le> unat (fVCount m) \<and> fICount m = 0 \<and> fIOffset m = 0))) \<and>
   (validate m = Inr True \<longleftrightarrow>
     (\<exists>spec vb. fSpec m = Some spec \<and> fVB m = Some vb \<and> fVCount m \<noteq> 0 \<and>
        fStride spec * fVCount m + fVOffset m \<le> vb_size vb \<and>
        fVOffset m mod fStride spec = 0 \<and>
        unat (fStride spec) * unat (fVCount m) < 2 ^ 64 \<and>
        unat (fStride spec * fVCount m) + unat (fVOffset m) < 2 ^ 64 \<and>
        (case fIB m of
           Some ib \<Rightarrow>
             min_vcount_for_mode (fMode m) \<le> fICount m \<and>
             2 * fICount m + fIOffset m \<le> ib_size ib \<and>
             fIOffset m AND 1 = 0 \<and>
             2 * unat (fICount m) < 2 ^ 64 \<and>
             unat (2 * fICount m) + unat (fIOffset m) < 2 ^ 64
         | None \<Rightarrow>
             min_vcount_for_mode (fMode m) \<le> fVCount m \<and> fICount m = 0 \<and> fIOffset m = 0)))"
proof -
  note w = validate_wrapped [OF assms]
  from w obtain b where "validate m = Inr b" by blast
  then have c1: "validate m = Inr True \<or> validate m = Inr False"
    by (cases b) simp_all
  have c2: "validate m = Inr True \<longleftrightarrow>
     (\<exists>spec vb. fSpec m = Some spec \<and> fVB m = Some vb \<and> fVCount m \<noteq> 0 \<and>
        unat (fStride spec) * unat (fVCount m) + unat (fVOffset m) \<le> unat (vb_size vb) \<and>
        unat (fVOffset m) mod unat (fStride spec) = 0 \<and>
        (case fIB m of
           Some ib \<Rightarrow>
             3 \<le> unat (fICount m) \<and>
             2 * unat (fICount m) + unat (fIOffset m) \<le> unat (ib_size ib) \<and>
             even (unat (fIOffset m))
         | None \<Rightarrow> 3 \<le> unat (fVCount m) \<and> fICount m = 0 \<and> fIOffset m = 0))"
  proof -
    have ce: "unat x * unat y < 18446744073709551616 \<and>
              unat (x * y) + unat z < 18446744073709551616 \<and> x * y + z \<le> s \<longleftrightarrow>
              unat x * unat y + unat z \<le> unat s" for x y z s :: size_t
      using checked_extent [of x y z s] by simp
    show ?thesis
      by (simp add: w ce word_mod_zero_iff validate_indices_exact)
  qed
  have c3: "validate m = Inr True \<longleftrightarrow>
     (\<exists>spec vb. fSpec m = Some spec \<and> fVB m = Some vb \<and> fVCount m \<noteq> 0 \<and>
        fStride spec * fVCount m + fVOffset m \<le> vb_size vb \<and>
        fVOffset m mod fStride spec = 0 \<and>
        unat (fStride spec) * unat (fVCount m) < 2 ^ 64 \<and>
        unat (fStride spec * fVCount m) + unat (fVOffset m) < 2 ^ 64 \<and>
        (case fIB m of
           Some ib \<Rightarrow>
             min_vcount_for_mode (fMode m) \<le> fICount m \<and>
             2 * fICount m + fIOffset m \<le> ib_size ib \<and>
             fIOffset m AND 1 = 0 \<and>
             2 * unat (fICount m) < 2 ^ 64 \<and>
             unat (2 * fICount m) + unat (fIOffset m) < 2 ^ 64
         | None \<Rightarrow>
             min_vcount_for_mode (fMode m) \<le> fVCount m \<and> fICount m = 0 \<and> fIOffset m = 0))"
    by (cases "fIB m") (simp_all add: w validate_indices_wrapped conj_ac)
  from c1 c2 c3 show ?thesis by blast
qed

theorem validate_true_iff_witness:
  "fSpec triangle_mesh = Some plain_spec \<and> fStride plain_spec \<noteq> 0 \<and>
   validate triangle_mesh = Inr True \<and>
   validate (triangle_mesh\<lparr>fVCount := 2\<rparr>) = Inr False \<and>
   validate (triangle_mesh\<lparr>fVOffset := 1\<rparr>) = Inr False \<and>
   validate (triangle_mesh\<lparr>fVCount := 4\<rparr>) = Inr False \<and>
   validate (triangle_mesh\<lparr>fICount := 3\<rparr>) = Inr False"
proof -
  have s: "fStride spec \<noteq> 0" if "fSpec m = Some plain_spec" "fSpec m = Some spec"
    for spec and m :: "(32, int) SkCustomMesh"
    using that by (auto simp: plain_spec_def SkCustomMeshSpecification_ctor_def Let_def)
  note defs = triangle_mesh_def plain_spec_def SkCustomMeshSpecification_ctor_def Let_def
    SkCustomMesh_default_def
  have p: "fSpec triangle_mesh = Some plain_spec"
    "fSpec (triangle_mesh\<lparr>fVCount := 2\<rparr>) = Some plain_spec"
    "fSpec (triangle_mesh\<lparr>fVOffset := 1\<rparr>) = Some plain_spec"
    "fSpec (triangle_mesh\<lparr>fVCount := 4\<rparr>) = Some plain_spec"
    "fSpec (triangle_mesh\<lparr>fICount := 3\<rparr>) = Some plain_spec"
    by (simp_all add: triangle_mesh_def)
  have t: "validate triangle_mesh = Inr True"
    using validate_true_iff [of triangle_mesh, OF s [OF p(1)], THEN conjunct2, THEN conjunct1]
    by (simp add: defs)
  have n1: "validate (triangle_mesh\<lparr>fVCount := 2\<rparr>) = Inr False"
    using validate_true_iff [of "triangle_mesh\<lparr>fVCount := 2\<rparr>", OF s [OF p(2)], THEN conjunct2, THEN conjunct1]
      validate_true_iff [of "triangle_mesh\<lparr>fVCount := 2\<rparr>", OF s [OF p(2)], THEN conjunct1]
    by (simp add: defs)
  have n2: "validate (triangle_mesh\<lparr>fVOffset := 1\<rparr>) = Inr False"
    using validate_true_iff [of "triangle_mesh\<lparr>fVOffset := 1\<rparr>", OF s [OF p(3)], THEN conjunct2, THEN conjunct1]
      validate_true_iff [of "triangle_mesh\<lparr>fVOffset := 1\<rparr>", OF s [OF p(3)], THEN conjunct1]
    by (simp add: defs)
  have n3: "validate (triangle_mesh\<lparr>fVCount := 4\<rparr>) = Inr False"
    using validate_true_iff [of "triangle_mesh\<lparr>fVCount := 4\<rparr>", OF s [OF p(4)], THEN conjunct2, THEN conjunct1]
      validate_true_iff [of "triangle_mesh\<lparr>fVCount := 4\<rparr>", OF s [OF p(4)], THEN conjunct1]
    by (simp add: defs)
  have n4: "validate (triangle_mesh\<lparr>fICount := 3\<rparr>) = Inr False"
    using validate_true_iff [of "triangle_mesh\<lparr>fICount := 3\<rparr>", OF s [OF p(5)], THEN conjunct2, THEN conjunct1]
      validate_true_iff [of "triangle_mesh\<lparr>fICount := 3\<rparr>", OF s [OF p(5)], THEN conjunct1]
    by (simp add: defs)
  have "fStride plain_spec \<noteq> 0"
    using s [OF p(1) p(1)] .
  with p(1) t n1 n2 n3 n4 show ?thesis by blast
qed

section \<open>The identity hash\<close>

lemma hash_attributes_fold:
  "hash_attributes K attributes h =
     fold (\<lambda>(offset, type) h.
             hash_fn K (object_bytes 4 (attribute_type_code type))
               (hash_fn K (object_bytes 8 offset) h))
       (offsets_and_types attributes) h"
  by (induction attributes arbitrary: h) simp_all

lemma ctor_hash:
  "fHash (SkCustomMeshSpecification_ctor K attributes stride varyings vs fs ct hasLocalCoords cs at) =
     identity_hash K (fSource vs) (fSource fs) (offsets_and_types attributes) stride
       (hash_or_zero cs) (alpha_type_code at)"
  by (simp add: SkCustomMeshSpecification_ctor_def identity_hash_def Let_def hash_attributes_fold)

text \<open>
  C3. The hash of a specification is the fold, in this order, of the source text of the
  vertex program, the source text of the fragment program, each attribute's offset and
  type in the order of declaration, the stride, the hash of the color space or zero when
  there is none, and the code of the alpha type: it is \<open>identity_hash\<close> of these
  inputs. Hence two constructions that agree on them have the same hash, whatever their
  attribute names, varyings, color type and local-coordinates flag are, and the hash of
  every specification that \<open>MakeFromSourceWithStructs\<close> returns is this function of its
  own programs, color space and alpha type and of the attributes and stride it was given.
  The width of the hash is a parameter, so the statement holds for 64 bits.
\<close>

theorem specification_hash_identity:
  "fHash (SkCustomMeshSpecification_ctor K attributes stride varyings vs fs ct hasLocalCoords cs at) =
     identity_hash K (fSource vs) (fSource fs) (offsets_and_types attributes) stride
       (hash_or_zero cs) (alpha_type_code at) \<and>
   (fSource vs = fSource vs' \<and> fSource fs = fSource fs' \<and>
    offsets_and_types attributes = offsets_and_types attributes' \<and> stride = stride' \<and>
    hash_or_zero cs = hash_or_zero cs' \<and> at = at' \<longrightarrow>
      fHash (SkCustomMeshSpecification_ctor K attributes stride varyings vs fs ct hasLocalCoords cs at) =
      fHash (SkCustomMeshSpecification_ctor K attributes' stride' varyings' vs' fs' ct'
               hasLocalCoords' cs' at')) \<and>
   (snd (MakeFromSourceWithStructs K attributes stride varyings vsText fsText cs at) = Inr (Some s, e) \<longrightarrow>
      fHash s =
        identity_hash K (fSource (fVS s)) (fSource (fFS s)) (offsets_and_types attributes) stride
          (hash_or_zero (fColorSpace s)) (alpha_type_code (fAlphaType s)))"
proof -
  have c3: "fHash s =
        identity_hash K (fSource (fVS s)) (fSource (fFS s)) (offsets_and_types attributes) stride
          (hash_or_zero (fColorSpace s)) (alpha_type_code (fAlphaType s))"
    if a: "snd (MakeFromSourceWithStructs K attributes stride varyings vsText fsText cs at) = Inr (Some s, e)"
  proof -
    from MakeFromSourceWithStructs_success(5) [OF a] obtain vsP fsP where
      "finish_specification K attributes stride varyings vsP fsP cs at = Inr (Some s, e)"
      by (rule compile_stages_success)
    then obtain ct hlc where
      "s = SkCustomMeshSpecification_ctor K attributes stride varyings vsP fsP ct hlc
           (if ct = ColorType_kNone then None else cs)
           (if ct = ColorType_kNone then kPremul_SkAlphaType else at)"
      by (rule finish_specification_success)
    then show ?thesis by (simp only: ctor_hash ctor_fields)
  qed
  show ?thesis
    using c3 by (simp add: ctor_hash)
qed

theorem specification_hash_identity_witness:
  "snd (MakeFromSourceWithStructs (env0 plain_fs_main) [x_attr] 4 [] ''vs'' ''fs'' None
          kPremul_SkAlphaType) = Inr (Some plain_spec, []) \<and>
   fHash plain_spec =
     identity_hash (env0 plain_fs_main) ''vs'' ''fs'' [(0, Attribute_kFloat)] 4 0 2 \<and>
   fHash (SkCustomMeshSpecification_ctor (env0 plain_fs_main)
            [x_attr\<lparr>attr_name := ''y''\<rparr>] 4 [\<lparr>var_type = Varying_kHalf4, var_name = ''c''\<rparr>]
            \<lparr>elements = [], fSource = ''vs''\<rparr> \<lparr>elements = [OtherElement], fSource = ''fs''\<rparr>
            ColorType_kHalf4 True None kPremul_SkAlphaType) =
     fHash plain_spec"
proof -
  note t = specification_hash_identity
    [where K = "env0 plain_fs_main" and attributes = "[x_attr]" and stride = 4
       and varyings = "[]"
       and vs = "\<lparr>elements = [FunctionDefinition vertex_main], fSource = ''vs''\<rparr>"
       and fs = "\<lparr>elements = [OtherElement, FunctionDefinition plain_fs_main], fSource = ''fs''\<rparr>"
       and ct = ColorType_kNone and hasLocalCoords = False and cs = None
       and at = kPremul_SkAlphaType
       and attributes' = "[x_attr\<lparr>attr_name := ''y''\<rparr>]" and stride' = 4
       and varyings' = "[\<lparr>var_type = Varying_kHalf4, var_name = ''c''\<rparr>]"
       and vs' = "\<lparr>elements = [], fSource = ''vs''\<rparr>"
       and fs' = "\<lparr>elements = [OtherElement], fSource = ''fs''\<rparr>"
       and ct' = ColorType_kHalf4 and hasLocalCoords' = True and cs' = None
       and at' = kPremul_SkAlphaType
       and vsText = "''vs''" and fsText = "''fs''" and s = plain_spec and e = "[]",
     folded plain_spec_def]
  show ?thesis
    using t by (auto simp add: plain_make x_attr_sel)
qed

section \<open>Color space and alpha type\<close>

lemma finish_specification_cases:
  assumes "get_fs_color_type_and_local_coords K fsP = Inr (ct, hlc)"
  shows "finish_specification K attributes stride varyings vsP fsP cs at =
     (if ct = ColorType_kNone then
        Inr (Some (SkCustomMeshSpecification_ctor K attributes stride varyings vsP fsP ct hlc
                     None kPremul_SkAlphaType), [])
      else if cs = None then Inr (None, ''Must provide a color space if FS returns a color.'')
      else if at = kUnknown_SkAlphaType then
        Inr (None, ''Must provide a valid alpha type if FS returns a color.'')
      else Inr (Some (SkCustomMeshSpecification_ctor K attributes stride varyings vsP fsP ct hlc
                        cs at), []))"
  using assms by (simp add: finish_specification_def)

lemma success_invariant:
  assumes "snd (MakeFromSourceWithStructs K attributes stride varyings vs fs cs at) = Inr (Some s, e)"
  shows "(fColorType s = ColorType_kNone \<longrightarrow>
            fColorSpace s = None \<and> fAlphaType s = kPremul_SkAlphaType) \<and>
         (fColorType s \<noteq> ColorType_kNone \<longrightarrow>
            fColorSpace s \<noteq> None \<and> fColorSpace s = cs \<and>
            fAlphaType s \<noteq> kUnknown_SkAlphaType \<and> fAlphaType s = at)"
proof -
  from assms obtain vsP fsP where
    "finish_specification K attributes stride varyings vsP fsP cs at = Inr (Some s, e)"
    by (rule success_stages_pass)
  then obtain ct hlc where
    "get_fs_color_type_and_local_coords K fsP = Inr (ct, hlc)" "e = []"
    and s: "s = SkCustomMeshSpecification_ctor K attributes stride varyings vsP fsP ct hlc
           (if ct = ColorType_kNone then None else cs)
           (if ct = ColorType_kNone then kPremul_SkAlphaType else at)"
    and c: "ct \<noteq> ColorType_kNone \<longrightarrow> cs \<noteq> None \<and> at \<noteq> kUnknown_SkAlphaType"
    by (rule finish_specification_success)
  show ?thesis
    using c by (simp add: s ctor_fields)
qed

text \<open>
  C4. Every specification that the construction returns satisfies: if its color type is
  \<open>None\<close> then it has no color space and its alpha type is premultiplied, whatever the
  caller passed; otherwise its color space is present, its alpha type is not the unknown
  one, and both are the caller's. When all the stages before the contract pass and the
  color type that is extracted is not \<open>None\<close>, a null color space, and with a color
  space an unknown alpha type, make the construction return a null specification with
  the message of that case.
\<close>

theorem color_space_and_alpha_type:
  "(snd (MakeFromSourceWithStructs K attributes stride varyings vs fs cs at) = Inr (Some s, e) \<longrightarrow>
      (fColorType s = ColorType_kNone \<longrightarrow>
         fColorSpace s = None \<and> fAlphaType s = kPremul_SkAlphaType) \<and>
      (fColorType s \<noteq> ColorType_kNone \<longrightarrow>
         fColorSpace s \<noteq> None \<and> fColorSpace s = cs \<and>
         fAlphaType s \<noteq> kUnknown_SkAlphaType \<and> fAlphaType s = at)) \<and>
   (snd (SkCustomMeshSpecification_Make K attributes stride varyings vsBody fsBody cs at) =
      Inr (Some s, e) \<longrightarrow>
      (fColorType s = ColorType_kNone \<longrightarrow>
         fColorSpace s = None \<and> fAlphaType s = kPremul_SkAlphaType) \<and>
      (fColorType s \<noteq> ColorType_kNone \<longrightarrow>
         fColorSpace s \<noteq> None \<and> fColorSpace s = cs \<and>
         fAlphaType s \<noteq> kUnknown_SkAlphaType \<and> fAlphaType s = at)) \<and>
   (stages_pass K attributes stride varyings vs fs vsP fsP \<and>
    get_fs_color_type_and_local_coords K fsP = Inr (ct, hlc) \<longrightarrow>
      (ct = ColorType_kNone \<longrightarrow>
         snd (MakeFromSourceWithStructs K attributes stride varyings vs fs cs at) =
           Inr (Some (SkCustomMeshSpecification_ctor K attributes stride varyings vsP fsP
                        ColorType_kNone hlc None kPremul_SkAlphaType), [])) \<and>
      (ct \<noteq> ColorType_kNone \<and> cs = None \<longrightarrow>
         snd (MakeFromSourceWithStructs K attributes stride varyings vs fs cs at) =
           Inr (None, ''Must provide a color space if FS returns a color.'')) \<and>
      (ct \<noteq> ColorType_kNone \<and> cs \<noteq> None \<and> at = kUnknown_SkAlphaType \<longrightarrow>
         snd (MakeFromSourceWithStructs K attributes stride varyings vs fs cs at) =
           Inr (None, ''Must provide a valid alpha type if FS returns a color.'')) \<and>
      (ct \<noteq> ColorType_kNone \<and> cs \<noteq> None \<and> at \<noteq> kUnknown_SkAlphaType \<longrightarrow>
         snd (MakeFromSourceWithStructs K attributes stride varyings vs fs cs at) =
           Inr (Some (SkCustomMeshSpecification_ctor K attributes stride varyings vsP fsP
                        ct hlc cs at), [])))"
proof -
  have a: "(fColorType s = ColorType_kNone \<longrightarrow>
         fColorSpace s = None \<and> fAlphaType s = kPremul_SkAlphaType) \<and>
      (fColorType s \<noteq> ColorType_kNone \<longrightarrow>
         fColorSpace s \<noteq> None \<and> fColorSpace s = cs \<and>
         fAlphaType s \<noteq> kUnknown_SkAlphaType \<and> fAlphaType s = at)"
    if "snd (MakeFromSourceWithStructs K attributes stride varyings vs fs cs at) = Inr (Some s, e)"
    for vs fs
    using that by (rule success_invariant)
  have b: "snd (MakeFromSourceWithStructs K attributes stride varyings vs fs cs at) =
      finish_specification K attributes stride varyings vsP fsP cs at"
    if "stages_pass K attributes stride varyings vs fs vsP fsP" for cs at
    using stages_pass_Make [OF that] by simp
  have c: "finish_specification K attributes stride varyings vsP fsP cs at =
     (if ct = ColorType_kNone then
        Inr (Some (SkCustomMeshSpecification_ctor K attributes stride varyings vsP fsP ct hlc
                     None kPremul_SkAlphaType), [])
      else if cs = None then Inr (None, ''Must provide a color space if FS returns a color.'')
      else if at = kUnknown_SkAlphaType then
        Inr (None, ''Must provide a valid alpha type if FS returns a color.'')
      else Inr (Some (SkCustomMeshSpecification_ctor K attributes stride varyings vsP fsP ct hlc
                        cs at), []))"
    if "get_fs_color_type_and_local_coords K fsP = Inr (ct, hlc)" for cs at
    using that by (rule finish_specification_cases)
  have d: "snd (MakeFromSourceWithStructs K attributes stride varyings vs fs cs at) =
     (if ct = ColorType_kNone then
        Inr (Some (SkCustomMeshSpecification_ctor K attributes stride varyings vsP fsP ct hlc
                     None kPremul_SkAlphaType), [])
      else if cs = None then Inr (None, ''Must provide a color space if FS returns a color.'')
      else if at = kUnknown_SkAlphaType then
        Inr (None, ''Must provide a valid alpha type if FS returns a color.'')
      else Inr (Some (SkCustomMeshSpecification_ctor K attributes stride varyings vsP fsP ct hlc
                        cs at), []))"
    if "stages_pass K attributes stride varyings vs fs vsP fsP"
      "get_fs_color_type_and_local_coords K fsP = Inr (ct, hlc)" for cs at
    using b [OF that(1)] c [OF that(2)] by simp
  have p1: "snd (MakeFromSourceWithStructs K attributes stride varyings vs fs cs at) = Inr (Some s, e) \<longrightarrow>
      (fColorType s = ColorType_kNone \<longrightarrow>
         fColorSpace s = None \<and> fAlphaType s = kPremul_SkAlphaType) \<and>
      (fColorType s \<noteq> ColorType_kNone \<longrightarrow>
         fColorSpace s \<noteq> None \<and> fColorSpace s = cs \<and>
         fAlphaType s \<noteq> kUnknown_SkAlphaType \<and> fAlphaType s = at)"
    using a [of vs fs] by (rule impI)
  have p2: "snd (SkCustomMeshSpecification_Make K attributes stride varyings vsBody fsBody cs at) =
      Inr (Some s, e) \<longrightarrow>
      (fColorType s = ColorType_kNone \<longrightarrow>
         fColorSpace s = None \<and> fAlphaType s = kPremul_SkAlphaType) \<and>
      (fColorType s \<noteq> ColorType_kNone \<longrightarrow>
         fColorSpace s \<noteq> None \<and> fColorSpace s = cs \<and>
         fAlphaType s \<noteq> kUnknown_SkAlphaType \<and> fAlphaType s = at)"
    unfolding SkCustomMeshSpecification_Make_def
    using a [of "fullVS attributes varyings vsBody" "fullFS varyings fsBody"] by (rule impI)
  have p3: "stages_pass K attributes stride varyings vs fs vsP fsP \<and>
    get_fs_color_type_and_local_coords K fsP = Inr (ct, hlc) \<longrightarrow>
      (ct = ColorType_kNone \<longrightarrow>
         snd (MakeFromSourceWithStructs K attributes stride varyings vs fs cs at) =
           Inr (Some (SkCustomMeshSpecification_ctor K attributes stride varyings vsP fsP
                        ColorType_kNone hlc None kPremul_SkAlphaType), [])) \<and>
      (ct \<noteq> ColorType_kNone \<and> cs = None \<longrightarrow>
         snd (MakeFromSourceWithStructs K attributes stride varyings vs fs cs at) =
           Inr (None, ''Must provide a color space if FS returns a color.'')) \<and>
      (ct \<noteq> ColorType_kNone \<and> cs \<noteq> None \<and> at = kUnknown_SkAlphaType \<longrightarrow>
         snd (MakeFromSourceWithStructs K attributes stride varyings vs fs cs at) =
           Inr (None, ''Must provide a valid alpha type if FS returns a color.'')) \<and>
      (ct \<noteq> ColorType_kNone \<and> cs \<noteq> None \<and> at \<noteq> kUnknown_SkAlphaType \<longrightarrow>
         snd (MakeFromSourceWithStructs K attributes stride varyings vs fs cs at) =
           Inr (Some (SkCustomMeshSpecification_ctor K attributes stride varyings vsP fsP
                        ct hlc cs at), []))"
  proof (rule impI, elim conjE)
    assume "stages_pass K attributes stride varyings vs fs vsP fsP"
      "get_fs_color_type_and_local_coords K fsP = Inr (ct, hlc)"
    then show "(ct = ColorType_kNone \<longrightarrow>
         snd (MakeFromSourceWithStructs K attributes stride varyings vs fs cs at) =
           Inr (Some (SkCustomMeshSpecification_ctor K attributes stride varyings vsP fsP
                        ColorType_kNone hlc None kPremul_SkAlphaType), [])) \<and>
      (ct \<noteq> ColorType_kNone \<and> cs = None \<longrightarrow>
         snd (MakeFromSourceWithStructs K attributes stride varyings vs fs cs at) =
           Inr (None, ''Must provide a color space if FS returns a color.'')) \<and>
      (ct \<noteq> ColorType_kNone \<and> cs \<noteq> None \<and> at = kUnknown_SkAlphaType \<longrightarrow>
         snd (MakeFromSourceWithStructs K attributes stride varyings vs fs cs at) =
           Inr (None, ''Must provide a valid alpha type if FS returns a color.'')) \<and>
      (ct \<noteq> ColorType_kNone \<and> cs \<noteq> None \<and> at \<noteq> kUnknown_SkAlphaType \<longrightarrow>
         snd (MakeFromSourceWithStructs K attributes stride varyings vs fs cs at) =
           Inr (Some (SkCustomMeshSpecification_ctor K attributes stride varyings vsP fsP
                        ct hlc cs at), []))"
      by (simp add: d)
  qed
  from p1 p2 p3 show ?thesis by (intro conjI)
qed

theorem color_space_and_alpha_type_witness:
  "stages_pass (env0 color_fs_main) [x_attr] 4 [] ''vs'' ''fs''
     \<lparr>elements = [FunctionDefinition vertex_main], fSource = ''vs''\<rparr>
     \<lparr>elements = [OtherElement, FunctionDefinition color_fs_main], fSource = ''fs''\<rparr> \<and>
   get_fs_color_type_and_local_coords (env0 color_fs_main)
     \<lparr>elements = [OtherElement, FunctionDefinition color_fs_main], fSource = ''fs''\<rparr> =
     Inr (ColorType_kHalf4, True) \<and>
   snd (MakeFromSourceWithStructs (env0 color_fs_main) [x_attr] 4 [] ''vs'' ''fs'' None
          kPremul_SkAlphaType) =
     Inr (None, ''Must provide a color space if FS returns a color.'') \<and>
   snd (MakeFromSourceWithStructs (env0 color_fs_main) [x_attr] 4 [] ''vs'' ''fs'' (Some srgb)
          kUnknown_SkAlphaType) =
     Inr (None, ''Must provide a valid alpha type if FS returns a color.'') \<and>
   snd (MakeFromSourceWithStructs (env0 plain_fs_main) [x_attr] 4 [] ''vs'' ''fs'' (Some srgb)
          kUnpremul_SkAlphaType) = Inr (Some plain_spec, []) \<and>
   fColorType plain_spec = ColorType_kNone \<and> fColorSpace plain_spec = None \<and>
   fAlphaType plain_spec = kPremul_SkAlphaType"
proof -
  have st: "stages_pass (env0 color_fs_main) [x_attr] 4 [] ''vs'' ''fs''
     \<lparr>elements = [FunctionDefinition vertex_main], fSource = ''vs''\<rparr>
     \<lparr>elements = [OtherElement, FunctionDefinition color_fs_main], fSource = ''fs''\<rparr>"
    using stages_pass_x [OF color_contract(1), of "''vs''" "''fs''"]
    by (simp add: c_str_examples)
  have ex: "get_fs_color_type_and_local_coords (env0 color_fs_main)
     \<lparr>elements = [OtherElement, FunctionDefinition color_fs_main], fSource = ''fs''\<rparr> =
     Inr (ColorType_kHalf4, True)"
    by (simp add: stand_in_programs color_contract)
  have f1: "snd (MakeFromSourceWithStructs (env0 color_fs_main) [x_attr] 4 [] ''vs'' ''fs'' None
          kPremul_SkAlphaType) =
     Inr (None, ''Must provide a color space if FS returns a color.'')"
    using color_space_and_alpha_type
      [where K = "env0 color_fs_main" and attributes = "[x_attr]" and stride = 4
         and varyings = "[]" and vs = "''vs''" and fs = "''fs''"
         and vsP = "\<lparr>elements = [FunctionDefinition vertex_main], fSource = ''vs''\<rparr>"
         and fsP = "\<lparr>elements = [OtherElement, FunctionDefinition color_fs_main], fSource = ''fs''\<rparr>"
         and ct = ColorType_kHalf4 and hlc = True and cs = None and at = kPremul_SkAlphaType,
       THEN conjunct2, THEN conjunct2]
      st ex
    by simp
  have f2: "snd (MakeFromSourceWithStructs (env0 color_fs_main) [x_attr] 4 [] ''vs'' ''fs'' (Some srgb)
          kUnknown_SkAlphaType) =
     Inr (None, ''Must provide a valid alpha type if FS returns a color.'')"
    using color_space_and_alpha_type
      [where K = "env0 color_fs_main" and attributes = "[x_attr]" and stride = 4
         and varyings = "[]" and vs = "''vs''" and fs = "''fs''"
         and vsP = "\<lparr>elements = [FunctionDefinition vertex_main], fSource = ''vs''\<rparr>"
         and fsP = "\<lparr>elements = [OtherElement, FunctionDefinition color_fs_main], fSource = ''fs''\<rparr>"
         and ct = ColorType_kHalf4 and hlc = True and cs = "Some srgb"
         and at = kUnknown_SkAlphaType,
       THEN conjunct2, THEN conjunct2]
      st ex
    by simp
  have ok: "snd (MakeFromSourceWithStructs (env0 plain_fs_main) [x_attr] 4 [] ''vs'' ''fs'' (Some srgb)
          kUnpremul_SkAlphaType) = Inr (Some plain_spec, [])"
    by (simp add: plain_make)
  have inv: "fColorType plain_spec = ColorType_kNone \<and> fColorSpace plain_spec = None \<and>
      fAlphaType plain_spec = kPremul_SkAlphaType"
    using color_space_and_alpha_type
      [where K = "env0 plain_fs_main" and attributes = "[x_attr]" and stride = 4
         and varyings = "[]" and vs = "''vs''" and fs = "''fs''" and cs = "Some srgb"
         and at = kUnpremul_SkAlphaType and s = plain_spec and e = "[]",
       THEN conjunct1] ok
    by (simp add: plain_spec_def ctor_fields)
  from st ex f1 f2 ok inv show ?thesis by (intro conjI) simp_all
qed

section \<open>The contract of the fragment program\<close>

lemma get_fs_loop_skip:
  "no_main pre \<Longrightarrow> get_fs_loop dbg (pre @ rest) = get_fs_loop dbg rest"
proof (induction pre)
  case Nil
  then show ?case by simp
next
  case (Cons e pre)
  then show ?case by (cases e) simp_all
qed

lemma has_main_loop_intro:
  "isMain d \<Longrightarrow> has_main_loop (pre @ FunctionDefinition d # post)"
proof (induction pre)
  case Nil
  then show ?case by simp
next
  case (Cons e pre)
  then show ?case by (cases e) simp_all
qed

lemma has_main_loop_elim:
  "has_main_loop elems \<Longrightarrow>
     \<exists>pre d post. elems = pre @ FunctionDefinition d # post \<and> no_main pre \<and> isMain d"
proof (induction elems rule: has_main_loop.induct)
  case 1
  then show ?case by simp
next
  case (2 decl elems)
  show ?case
  proof (cases "isMain decl")
    case True
    then show ?thesis
      by (intro exI [of _ "[]"] exI [of _ decl] exI [of _ elems]) simp
  next
    case False
    with 2 obtain pre d post where
      e: "elems = pre @ FunctionDefinition d # post" and n: "no_main pre" and m: "isMain d"
      by auto
    show ?thesis
      using e n m False
      by (intro exI [of _ "FunctionDefinition decl # pre"] exI [of _ d] exI [of _ post]) simp
  qed
next
  case (3 elems)
  then obtain pre d post where
    e: "elems = pre @ FunctionDefinition d # post" and n: "no_main pre" and m: "isMain d"
    by auto
  show ?case
    using e n m
    by (intro exI [of _ "OtherElement # pre"] exI [of _ d] exI [of _ post]) simp
qed

lemma has_main_loop_iff:
  "has_main_loop elems \<longleftrightarrow>
     (\<exists>pre d post. elems = pre @ FunctionDefinition d # post \<and> no_main pre \<and> isMain d)"
  using has_main_loop_elim has_main_loop_intro by blast

lemma get_fs_at_main:
  assumes "elements p = pre @ FunctionDefinition d # post" and "no_main pre" and "isMain d"
  shows "get_fs_color_type_and_local_coords K p = fs_contract_of_main (SK_DEBUG K) d"
  using assms by (simp add: get_fs_color_type_and_local_coords_def get_fs_loop_skip)

text \<open>
  C5. A program has an entry point exactly when its elements are some elements without
  an entry point, then the definition of a function \<open>d\<close> that is \<open>main\<close>, then the
  rest. For such a program whose entry point returns \<open>void\<close> or \<open>float2\<close>, the
  extraction returns the color type \<open>None\<close> when \<open>d\<close> has exactly one parameter, and
  \<open>Half4\<close> or \<open>Float4\<close> when it has two and the second is of type \<open>half4\<close> or
  \<open>float4\<close>; the local-coordinates flag is true exactly when the return type is
  \<open>float2\<close>, so it is false for \<open>void\<close>. This holds with and without the assertions
  of a debug build.
\<close>

theorem fragment_contract:
  "(has_main p \<longleftrightarrow>
      (\<exists>pre d post. elements p = pre @ FunctionDefinition d # post \<and> no_main pre \<and> isMain d)) \<and>
   (elements p = pre @ FunctionDefinition d # post \<and> no_main pre \<and> isMain d \<and>
    (returnType d = SkSL_fVoid \<or> returnType d = SkSL_fFloat2) \<longrightarrow>
      (length (parameters d) = 1 \<longrightarrow>
         get_fs_color_type_and_local_coords K p =
           Inr (ColorType_kNone, returnType d = SkSL_fFloat2)) \<and>
      (length (parameters d) = 2 \<and> parameters d ! 1 = SkSL_fHalf4 \<longrightarrow>
         get_fs_color_type_and_local_coords K p =
           Inr (ColorType_kHalf4, returnType d = SkSL_fFloat2)) \<and>
      (length (parameters d) = 2 \<and> parameters d ! 1 = SkSL_fFloat4 \<longrightarrow>
         get_fs_color_type_and_local_coords K p =
           Inr (ColorType_kFloat4, returnType d = SkSL_fFloat2)))"
proof -
  have a: "has_main p \<longleftrightarrow>
      (\<exists>pre d post. elements p = pre @ FunctionDefinition d # post \<and> no_main pre \<and> isMain d)"
    unfolding has_main_def by (rule has_main_loop_iff)
  have b: "get_fs_color_type_and_local_coords K p = fs_contract_of_main (SK_DEBUG K) d"
    if "elements p = pre @ FunctionDefinition d # post" "no_main pre" "isMain d"
    using that by (rule get_fs_at_main)
  show ?thesis
    using a b by (auto simp: fs_contract_of_main_def)
qed

theorem fragment_contract_witness:
  "has_main \<lparr>elements = [OtherElement, FunctionDefinition color_fs_main], fSource = ''fs''\<rparr> \<and>
   get_fs_color_type_and_local_coords (env0 color_fs_main)
     \<lparr>elements = [OtherElement, FunctionDefinition color_fs_main], fSource = ''fs''\<rparr> =
     Inr (ColorType_kHalf4, True) \<and>
   get_fs_color_type_and_local_coords (env0 color_fs_main)
     \<lparr>elements = [OtherElement, FunctionDefinition plain_fs_main], fSource = ''fs''\<rparr> =
     Inr (ColorType_kNone, False)"
proof -
  have ex: "\<exists>pre d post.
      elements \<lparr>elements = [OtherElement, FunctionDefinition color_fs_main], fSource = ''fs''\<rparr> =
        pre @ FunctionDefinition d # post \<and> no_main pre \<and> isMain d"
    by (intro exI [of _ "[OtherElement]"] exI [of _ color_fs_main] exI [of _ "[]"])
      (simp add: color_fs_main_def)
  have h: "has_main \<lparr>elements = [OtherElement, FunctionDefinition color_fs_main], fSource = ''fs''\<rparr>"
    by (rule fragment_contract
      [where p = "\<lparr>elements = [OtherElement, FunctionDefinition color_fs_main], fSource = ''fs''\<rparr>",
       THEN conjunct1, THEN iffD2, OF ex])
  have c: "get_fs_color_type_and_local_coords (env0 color_fs_main)
     \<lparr>elements = [OtherElement, FunctionDefinition color_fs_main], fSource = ''fs''\<rparr> =
     Inr (ColorType_kHalf4, True)"
    using fragment_contract
      [where p = "\<lparr>elements = [OtherElement, FunctionDefinition color_fs_main], fSource = ''fs''\<rparr>"
         and pre = "[OtherElement]" and d = color_fs_main and post = "[]"
         and K = "env0 color_fs_main", THEN conjunct2]
    by (simp add: color_fs_main_def)
  have n: "get_fs_color_type_and_local_coords (env0 color_fs_main)
     \<lparr>elements = [OtherElement, FunctionDefinition plain_fs_main], fSource = ''fs''\<rparr> =
     Inr (ColorType_kNone, False)"
    using fragment_contract
      [where p = "\<lparr>elements = [OtherElement, FunctionDefinition plain_fs_main], fSource = ''fs''\<rparr>"
         and pre = "[OtherElement]" and d = plain_fs_main and post = "[]"
         and K = "env0 color_fs_main", THEN conjunct2]
    by (simp add: plain_fs_main_def)
  from h c n show ?thesis by blast
qed

section \<open>Synthesis of the sources\<close>

lemma attributes_loop_concat:
  "attributes_loop attributes s = s @ concat (map attribute_line attributes)"
  by (induction attributes arbitrary: s) simp_all

lemma varyings_loop_concat:
  "varyings_loop varyings s = s @ concat (map varying_line varyings)"
  by (induction varyings arbitrary: s) simp_all

lemma attributesStruct_text:
  "attributesStruct attributes =
     ''struct Attributes {'' @ newline @ concat (map attribute_line attributes) @ ''};'' @ newline"
  by (simp add: attributesStruct_def attributes_loop_concat)

lemma varyingStruct_text:
  "varyingStruct varyings =
     ''struct Varyings {'' @ newline @
     (if varyings = [] then ''  bool _empty_;'' @ newline
      else concat (map varying_line varyings)) @
     ''};'' @ newline"
  by (simp add: varyingStruct_def varyings_loop_concat Let_def)

lemma compile_stages_calls:
  "fst (compile_stages K attributes stride varyings vs fs cs at) = [(kCustomMeshVertex, c_str vs)] \<or>
   fst (compile_stages K attributes stride varyings vs fs cs at) =
     [(kCustomMeshVertex, c_str vs), (kCustomMeshFragment, c_str fs)]"
  by (simp add: compile_stages_def Let_def split: sum.splits)

lemma MakeFromSourceWithStructs_calls:
  "fst (MakeFromSourceWithStructs K attributes stride varyings vs fs cs at) = [] \<or>
   fst (MakeFromSourceWithStructs K attributes stride varyings vs fs cs at) =
     [(kCustomMeshVertex, c_str vs)] \<or>
   fst (MakeFromSourceWithStructs K attributes stride varyings vs fs cs at) =
     [(kCustomMeshVertex, c_str vs), (kCustomMeshFragment, c_str fs)]"
  using compile_stages_calls [of K attributes stride varyings vs fs cs at]
  by (auto simp: MakeFromSourceWithStructs_def split: prod.splits option.splits)

lemma Make_calls:
  "fst (SkCustomMeshSpecification_Make K attributes stride varyings vs fs cs at) \<in>
     {[],
      [(kCustomMeshVertex, fullVS attributes varyings vs)],
      [(kCustomMeshVertex, fullVS attributes varyings vs),
       (kCustomMeshFragment, fullFS varyings fs)]}"
  using MakeFromSourceWithStructs_calls [of K attributes stride varyings
      "fullVS attributes varyings vs" "fullFS varyings fs" cs at]
  by (auto simp: SkCustomMeshSpecification_Make_def c_str_full)

lemma x_structs:
  "attributesStruct [x_attr] = ''struct Attributes {\<newline>  float x;\<newline>};\<newline>''"
  "varyingStruct [] = ''struct Varyings {\<newline>  bool _empty_;\<newline>};\<newline>''"
  by (simp_all add: attributesStruct_text varyingStruct_text x_attr_sel c_str_examples)

text \<open>
  C6, as amended. \<open>Make\<close> is \<open>MakeFromSourceWithStructs\<close> on the synthesized texts: the
  vertex source is the declaration of the varyings struct, then that of the attributes
  struct, then the vertex body of the user read as a C string, that is up to its first
  NUL; the fragment source is the declaration of the varyings struct, then the fragment
  body read the same way. A body without NUL is appended whole. Each struct is its
  opening line, one line of type and name (the name read as a C string) for each entry in
  order, and the closing line; with no varyings the varyings struct has the single field
  \<open>bool _empty_\<close>. \<open>UByte4Norm\<close> is written \<open>half4\<close> and every other type of
  attribute or varying by its own name. The calls made to the compiler are none, or the
  vertex source alone, or the vertex source and then the fragment source; both are made
  when all stages pass.
\<close>

theorem synthesized_sources:
  "SkCustomMeshSpecification_Make K attributes stride varyings vs fs cs at =
     MakeFromSourceWithStructs K attributes stride varyings
       (fullVS attributes varyings vs) (fullFS varyings fs) cs at \<and>
   fullVS attributes varyings vs =
     varyingStruct varyings @ attributesStruct attributes @ c_str vs \<and>
   fullFS varyings fs = varyingStruct varyings @ c_str fs \<and>
   c_str vs = takeWhile (\<lambda>c. c \<noteq> CHR 0x00) vs \<and>
   c_str fs = takeWhile (\<lambda>c. c \<noteq> CHR 0x00) fs \<and>
   (CHR 0x00 \<notin> set vs \<longrightarrow>
      fullVS attributes varyings vs = varyingStruct varyings @ attributesStruct attributes @ vs) \<and>
   (CHR 0x00 \<notin> set fs \<longrightarrow> fullFS varyings fs = varyingStruct varyings @ fs) \<and>
   attributesStruct attributes =
     ''struct Attributes {'' @ newline @ concat (map attribute_line attributes) @ ''};'' @ newline \<and>
   varyingStruct varyings =
     ''struct Varyings {'' @ newline @
     (if varyings = [] then ''  bool _empty_;'' @ newline
      else concat (map varying_line varyings)) @
     ''};'' @ newline \<and>
   attribute_type_string Attribute_kUByte4_unorm = ''half4'' \<and>
   attribute_type_string Attribute_kFloat = ''float'' \<and>
   attribute_type_string Attribute_kFloat2 = ''float2'' \<and>
   attribute_type_string Attribute_kFloat3 = ''float3'' \<and>
   attribute_type_string Attribute_kFloat4 = ''float4'' \<and>
   varying_type_string Varying_kFloat = ''float'' \<and>
   varying_type_string Varying_kFloat2 = ''float2'' \<and>
   varying_type_string Varying_kFloat3 = ''float3'' \<and>
   varying_type_string Varying_kFloat4 = ''float4'' \<and>
   varying_type_string Varying_kHalf = ''half'' \<and>
   varying_type_string Varying_kHalf2 = ''half2'' \<and>
   varying_type_string Varying_kHalf3 = ''half3'' \<and>
   varying_type_string Varying_kHalf4 = ''half4'' \<and>
   fst (SkCustomMeshSpecification_Make K attributes stride varyings vs fs cs at) \<in>
     {[],
      [(kCustomMeshVertex, fullVS attributes varyings vs)],
      [(kCustomMeshVertex, fullVS attributes varyings vs),
       (kCustomMeshFragment, fullFS varyings fs)]} \<and>
   (stages_pass K attributes stride varyings (fullVS attributes varyings vs)
      (fullFS varyings fs) vsProgram fsProgram \<longrightarrow>
      fst (SkCustomMeshSpecification_Make K attributes stride varyings vs fs cs at) =
        [(kCustomMeshVertex, fullVS attributes varyings vs),
         (kCustomMeshFragment, fullFS varyings fs)])"
    (is "?M \<and> ?V \<and> ?F \<and> ?CV \<and> ?CF \<and> ?WV \<and> ?WF \<and> ?A \<and> ?Y \<and> ?T")
proof -
  have m: ?M by (rule SkCustomMeshSpecification_Make_def)
  have v: ?V by (rule fullVS_text)
  have f: ?F by (rule fullFS_text)
  have cv: ?CV by (rule c_str_def)
  have cf: ?CF by (rule c_str_def)
  have wv: ?WV by (simp add: fullVS_text c_str_whole)
  have wf: ?WF by (simp add: fullFS_text c_str_whole)
  have a: ?A by (rule attributesStruct_text)
  have y: ?Y by (rule varyingStruct_text)
  have p: "fst (SkCustomMeshSpecification_Make K attributes stride varyings vs fs cs at) =
        [(kCustomMeshVertex, fullVS attributes varyings vs),
         (kCustomMeshFragment, fullFS varyings fs)]"
    if "stages_pass K attributes stride varyings (fullVS attributes varyings vs)
      (fullFS varyings fs) vsProgram fsProgram"
    unfolding SkCustomMeshSpecification_Make_def
    by (simp add: stages_pass_Make [OF that] c_str_full)
  have t: ?T
    using Make_calls [of K attributes stride varyings vs fs cs at] p by simp
  show ?thesis
    by (rule conjI [OF m conjI [OF v conjI [OF f conjI [OF cv conjI [OF cf
          conjI [OF wv conjI [OF wf conjI [OF a conjI [OF y t]]]]]]]]])
qed

theorem synthesized_sources_witness:
  "stages_pass (env0 plain_fs_main) [x_attr] 4 []
     (fullVS [x_attr] [] ''void main() {}'') (fullFS [] ''float2 main() {}'')
     \<lparr>elements = [FunctionDefinition vertex_main],
      fSource = fullVS [x_attr] [] ''void main() {}''\<rparr>
     \<lparr>elements = [OtherElement, FunctionDefinition plain_fs_main],
      fSource = fullFS [] ''float2 main() {}''\<rparr> \<and>
   CHR 0x00 \<notin> set ''void main() {}'' \<and> CHR 0x00 \<notin> set ''float2 main() {}'' \<and>
   fst (SkCustomMeshSpecification_Make (env0 plain_fs_main) [x_attr] 4 []
          ''void main() {}'' ''float2 main() {}'' None kPremul_SkAlphaType) =
     [(kCustomMeshVertex,
       ''struct Varyings {\<newline>  bool _empty_;\<newline>};\<newline>struct Attributes {\<newline>  float x;\<newline>};\<newline>void main() {}''),
      (kCustomMeshFragment,
       ''struct Varyings {\<newline>  bool _empty_;\<newline>};\<newline>float2 main() {}'')]"
proof -
  have st: "stages_pass (env0 plain_fs_main) [x_attr] 4 []
     (fullVS [x_attr] [] ''void main() {}'') (fullFS [] ''float2 main() {}'')
     \<lparr>elements = [FunctionDefinition vertex_main],
      fSource = fullVS [x_attr] [] ''void main() {}''\<rparr>
     \<lparr>elements = [OtherElement, FunctionDefinition plain_fs_main],
      fSource = fullFS [] ''float2 main() {}''\<rparr>"
    using stages_pass_x [OF plain_contract(1), of "fullVS [x_attr] [] ''void main() {}''"
        "fullFS [] ''float2 main() {}''"]
    by (simp add: c_str_full)
  have n: "CHR 0x00 \<notin> set ''void main() {}''" "CHR 0x00 \<notin> set ''float2 main() {}''"
    by simp_all
  note t = synthesized_sources
    [where K = "env0 plain_fs_main" and attributes = "[x_attr]" and stride = 4
       and varyings = "[]" and vs = "''void main() {}''" and fs = "''float2 main() {}''"
       and cs = None and at = kPremul_SkAlphaType
       and vsProgram = "\<lparr>elements = [FunctionDefinition vertex_main],
         fSource = fullVS [x_attr] [] ''void main() {}''\<rparr>"
       and fsProgram = "\<lparr>elements = [OtherElement, FunctionDefinition plain_fs_main],
         fSource = fullFS [] ''float2 main() {}''\<rparr>"]
  from t n have w:
    "fullVS [x_attr] [] ''void main() {}'' =
       varyingStruct [] @ attributesStruct [x_attr] @ ''void main() {}''"
    "fullFS [] ''float2 main() {}'' = varyingStruct [] @ ''float2 main() {}''"
    by blast+
  from t st have r: "fst (SkCustomMeshSpecification_Make (env0 plain_fs_main) [x_attr] 4 []
          ''void main() {}'' ''float2 main() {}'' None kPremul_SkAlphaType) =
     [(kCustomMeshVertex, fullVS [x_attr] [] ''void main() {}''),
      (kCustomMeshFragment, fullFS [] ''float2 main() {}'')]"
    by blast
  have "fst (SkCustomMeshSpecification_Make (env0 plain_fs_main) [x_attr] 4 []
          ''void main() {}'' ''float2 main() {}'' None kPremul_SkAlphaType) =
     [(kCustomMeshVertex,
       ''struct Varyings {\<newline>  bool _empty_;\<newline>};\<newline>struct Attributes {\<newline>  float x;\<newline>};\<newline>void main() {}''),
      (kCustomMeshFragment,
       ''struct Varyings {\<newline>  bool _empty_;\<newline>};\<newline>float2 main() {}'')]"
    unfolding r w by (simp add: x_structs)
  with st n show ?thesis by (intro conjI)
qed

theorem synthesized_sources_counterexample:
  "fullVS [x_attr] [] nul_body =
     ''struct Varyings {\<newline>  bool _empty_;\<newline>};\<newline>struct Attributes {\<newline>  float x;\<newline>};\<newline>v'' \<and>
   fullVS [x_attr] [] nul_body \<noteq> varyingStruct [] @ attributesStruct [x_attr] @ nul_body \<and>
   fst (SkCustomMeshSpecification_Make (env0 plain_fs_main) [x_attr] 4 [] nul_body ''fs'' None
          kPremul_SkAlphaType) =
     [(kCustomMeshVertex,
       ''struct Varyings {\<newline>  bool _empty_;\<newline>};\<newline>struct Attributes {\<newline>  float x;\<newline>};\<newline>v''),
      (kCustomMeshFragment, ''struct Varyings {\<newline>  bool _empty_;\<newline>};\<newline>fs'')]"
proof -
  have a: "fullVS [x_attr] [] nul_body =
     ''struct Varyings {\<newline>  bool _empty_;\<newline>};\<newline>struct Attributes {\<newline>  float x;\<newline>};\<newline>v''"
    by (simp add: fullVS_text x_structs c_str_examples)
  have b: "fullVS [x_attr] [] nul_body \<noteq> varyingStruct [] @ attributesStruct [x_attr] @ nul_body"
    by (simp add: fullVS_text c_str_def nul_body_def)
  have f: "fullFS [] ''fs'' = ''struct Varyings {\<newline>  bool _empty_;\<newline>};\<newline>fs''"
    by (simp add: fullFS_text x_structs c_str_examples)
  have c: "fst (SkCustomMeshSpecification_Make (env0 plain_fs_main) [x_attr] 4 [] nul_body ''fs'' None
          kPremul_SkAlphaType) =
     [(kCustomMeshVertex, fullVS [x_attr] [] nul_body), (kCustomMeshFragment, fullFS [] ''fs'')]"
    by (simp add: SkCustomMeshSpecification_Make_def make_x c_str_full)
  from a b c f show ?thesis by simp
qed

section \<open>The order of the stages\<close>

text \<open>
  C7, as amended. \<open>Make\<close> first synthesizes the two sources, which cannot fail, and
  passes them to \<open>MakeFromSourceWithStructs\<close>, whose stages run in this order, the
  first failure giving a null specification and its message: layout validation; the
  names of the attributes, in order; the number of varyings, at most \<open>kMaxVaryings\<close>;
  the names of the varyings, in order; the compilation of the vertex source, its entry
  point and its intrinsics; the same for the fragment source; the extraction of the
  contract; the color space and the alpha type. The count of the varyings is thus checked
  before their names. No call to the compiler is made unless every check before it
  passed, so no synthesized text with an invalid name reaches the compiler. The compiler
  is given each source as a C string, up to its first NUL, and a name or a compiler error
  is printed in a message the same way. A name is valid exactly when it is not empty and
  each of its characters is an underscore or an ASCII letter or digit.
\<close>

theorem construction_stage_order:
  "SkCustomMeshSpecification_Make K attributes stride varyings vsBody fsBody cs at =
     MakeFromSourceWithStructs K attributes stride varyings
       (fullVS attributes varyings vsBody) (fullFS varyings fsBody) cs at \<and>
   (\<not> fst (check_vertex_offsets_and_stride K attributes stride) \<longrightarrow>
      MakeFromSourceWithStructs K attributes stride varyings vs fs cs at =
        ([], Inr (None, snd (check_vertex_offsets_and_stride K attributes stride))) \<and>
      snd (check_vertex_offsets_and_stride K attributes stride) \<noteq> []) \<and>
   (fst (check_vertex_offsets_and_stride K attributes stride) \<and>
    attributes = pre @ a # post \<and> (\<forall>b\<in>set pre. check_name (attr_name b)) \<and>
    \<not> check_name (attr_name a) \<longrightarrow>
      MakeFromSourceWithStructs K attributes stride varyings vs fs cs at =
        ([], Inr (None, dquote @ c_str (attr_name a) @ dquote @ '' is not a valid attribute name.''))) \<and>
   (fst (check_vertex_offsets_and_stride K attributes stride) \<and>
    (\<forall>b\<in>set attributes. check_name (attr_name b)) \<and>
    unat (kMaxVaryings K) < length varyings \<longrightarrow>
      MakeFromSourceWithStructs K attributes stride varyings vs fs cs at =
        ([], Inr (None, ''A maximum of '' @ zu (kMaxVaryings K) @ '' varyings is allowed.''))) \<and>
   (fst (check_vertex_offsets_and_stride K attributes stride) \<and>
    (\<forall>b\<in>set attributes. check_name (attr_name b)) \<and>
    length varyings \<le> unat (kMaxVaryings K) \<and>
    varyings = vpre @ v # vpost \<and> (\<forall>w\<in>set vpre. check_name (var_name w)) \<and>
    \<not> check_name (var_name v) \<longrightarrow>
      MakeFromSourceWithStructs K attributes stride varyings vs fs cs at =
        ([], Inr (None, dquote @ c_str (var_name v) @ dquote @ '' is not a valid varying name.''))) \<and>
   (validated K attributes stride varyings \<and>
    convertProgram K kCustomMeshVertex (c_str vs) es2 = Inl err \<longrightarrow>
      MakeFromSourceWithStructs K attributes stride varyings vs fs cs at =
        ([(kCustomMeshVertex, c_str vs)], Inr (None, ''VS: '' @ c_str err))) \<and>
   (validated K attributes stride varyings \<and>
    convertProgram K kCustomMeshVertex (c_str vs) es2 = Inr vsP \<and> \<not> has_main vsP \<longrightarrow>
      MakeFromSourceWithStructs K attributes stride varyings vs fs cs at =
        ([(kCustomMeshVertex, c_str vs)], Inr (None, ''Vertex shader must have main function.''))) \<and>
   (validated K attributes stride varyings \<and>
    convertProgram K kCustomMeshVertex (c_str vs) es2 = Inr vsP \<and> has_main vsP \<and>
    CallsColorTransformIntrinsics K vsP \<longrightarrow>
      MakeFromSourceWithStructs K attributes stride varyings vs fs cs at =
        ([(kCustomMeshVertex, c_str vs)],
         Inr (None, ''Color transform intrinsics are not permitted in custom mesh shaders''))) \<and>
   (validated K attributes stride varyings \<and> stage_passes K kCustomMeshVertex (c_str vs) vsP \<and>
    convertProgram K kCustomMeshFragment (c_str fs) es2 = Inl err \<longrightarrow>
      MakeFromSourceWithStructs K attributes stride varyings vs fs cs at =
        ([(kCustomMeshVertex, c_str vs), (kCustomMeshFragment, c_str fs)], Inr (None, ''FS: '' @ c_str err))) \<and>
   (validated K attributes stride varyings \<and> stage_passes K kCustomMeshVertex (c_str vs) vsP \<and>
    convertProgram K kCustomMeshFragment (c_str fs) es2 = Inr fsP \<and> \<not> has_main fsP \<longrightarrow>
      MakeFromSourceWithStructs K attributes stride varyings vs fs cs at =
        ([(kCustomMeshVertex, c_str vs), (kCustomMeshFragment, c_str fs)],
         Inr (None, ''Fragment shader must have main function.''))) \<and>
   (validated K attributes stride varyings \<and> stage_passes K kCustomMeshVertex (c_str vs) vsP \<and>
    convertProgram K kCustomMeshFragment (c_str fs) es2 = Inr fsP \<and> has_main fsP \<and>
    CallsColorTransformIntrinsics K fsP \<longrightarrow>
      MakeFromSourceWithStructs K attributes stride varyings vs fs cs at =
        ([(kCustomMeshVertex, c_str vs), (kCustomMeshFragment, c_str fs)],
         Inr (None, ''Color transform intrinsics are not permitted in custom mesh shaders''))) \<and>
   (validated K attributes stride varyings \<and> stage_passes K kCustomMeshVertex (c_str vs) vsP \<and>
    stage_passes K kCustomMeshFragment (c_str fs) fsP \<and>
    get_fs_color_type_and_local_coords K fsP = Inl f \<longrightarrow>
      MakeFromSourceWithStructs K attributes stride varyings vs fs cs at =
        ([(kCustomMeshVertex, c_str vs), (kCustomMeshFragment, c_str fs)], Inl f)) \<and>
   (validated K attributes stride varyings \<and> stage_passes K kCustomMeshVertex (c_str vs) vsP \<and>
    stage_passes K kCustomMeshFragment (c_str fs) fsP \<and>
    get_fs_color_type_and_local_coords K fsP = Inr (ct, hlc) \<longrightarrow>
      MakeFromSourceWithStructs K attributes stride varyings vs fs cs at =
        ([(kCustomMeshVertex, c_str vs), (kCustomMeshFragment, c_str fs)],
         Inr (if ct = ColorType_kNone then
                (Some (SkCustomMeshSpecification_ctor K attributes stride varyings vsP fsP ct hlc
                         None kPremul_SkAlphaType), [])
              else if cs = None then
                (None, ''Must provide a color space if FS returns a color.'')
              else if at = kUnknown_SkAlphaType then
                (None, ''Must provide a valid alpha type if FS returns a color.'')
              else
                (Some (SkCustomMeshSpecification_ctor K attributes stride varyings vsP fsP ct hlc
                         cs at), [])))) \<and>
   (check_name name \<longleftrightarrow>
      name \<noteq> [] \<and> (\<forall>c\<in>set name. c = CHR ''_'' \<or> isalnum_classic c))"
    (is "?C0 \<and> ?C1 \<and> ?C2 \<and> ?C3 \<and> ?C4 \<and> ?C5 \<and> ?C6 \<and> ?C7 \<and> ?C8 \<and> ?C9 \<and> ?C10 \<and> ?C11 \<and> ?C12 \<and> ?C13")
proof -
  have v: "MakeFromSourceWithStructs K attributes stride varyings vs fs cs at =
      compile_stages K attributes stride varyings vs fs cs at"
    if "validated K attributes stride varyings" for cs at
    using that by (intro validated_Make) simp_all
  have sp: "MakeFromSourceWithStructs K attributes stride varyings vs fs cs at =
     ([(kCustomMeshVertex, c_str vs), (kCustomMeshFragment, c_str fs)],
      finish_specification K attributes stride varyings vsP fsP cs at)"
    if "validated K attributes stride varyings" "stage_passes K kCustomMeshVertex (c_str vs) vsP"
      "stage_passes K kCustomMeshFragment (c_str fs) fsP" for cs at
    using that by (intro stages_pass_Make) (simp add: stages_pass_iff)
  have c0: ?C0 by (rule SkCustomMeshSpecification_Make_def)
  have c1: ?C1 by (simp add: Make_layout_failure layout_message)
  have c2: ?C2 by (intro impI, elim conjE) (rule Make_attribute_name_failure)
  have c3: ?C3 by (intro impI, elim conjE) (rule Make_varying_count_failure)
  have c4: ?C4 by (intro impI, elim conjE) (rule Make_varying_name_failure)
  have c5: ?C5 by (auto simp: v compile_stages_cases)
  have c6: ?C6 by (auto simp: v compile_stages_cases)
  have c7: ?C7 by (auto simp: v compile_stages_cases)
  have c8: ?C8 by (auto simp: v compile_stages_cases)
  have c9: ?C9 by (auto simp: v compile_stages_cases)
  have c10: ?C10 by (auto simp: v compile_stages_cases)
  have c11: ?C11 by (auto simp: sp finish_specification_def)
  have c12: ?C12 by (auto simp: sp finish_specification_def)
  have c13: ?C13 by (rule check_name_iff)
  from c0 c1 c2 c3 c4 c5 c6 c7 c8 c9 c10 c11 c12 c13 show ?thesis
    by (intro conjI)
qed

theorem construction_stage_order_witness:
  "fst (check_vertex_offsets_and_stride (env0 plain_fs_main) [x_attr] 4) \<and>
   check_name (attr_name x_attr) \<and>
   unat (kMaxVaryings (env0 plain_fs_main)) < length seven_varyings \<and>
   MakeFromSourceWithStructs (env0 plain_fs_main) [x_attr] 4 seven_varyings ''vs'' ''fs'' None
     kPremul_SkAlphaType = ([], Inr (None, ''A maximum of 6 varyings is allowed.'')) \<and>
   MakeFromSourceWithStructs (env0 plain_fs_main) [x_attr] 4 [bad_varying] ''vs'' ''fs'' None
     kPremul_SkAlphaType = ([], Inr (None, dquote @ ''a b'' @ dquote @ '' is not a valid varying name.''))"
proof -
  have l: "fst (check_vertex_offsets_and_stride (env0 plain_fs_main) [x_attr] 4)"
    by (simp add: layout_x)
  have n: "check_name (attr_name x_attr)"
    by (simp add: x_attr_sel check_name_examples)
  have c: "unat (kMaxVaryings (env0 plain_fs_main)) < length seven_varyings"
    by (simp add: env0_sel seven_varyings_facts)
  note t = construction_stage_order
    [where K = "env0 plain_fs_main" and attributes = "[x_attr]" and stride = 4
       and vs = "''vs''" and fs = "''fs''" and cs = None and at = kPremul_SkAlphaType]
  have r1: "MakeFromSourceWithStructs (env0 plain_fs_main) [x_attr] 4 seven_varyings ''vs'' ''fs'' None
     kPremul_SkAlphaType = ([], Inr (None, ''A maximum of 6 varyings is allowed.''))"
    using t [where varyings = seven_varyings, THEN conjunct2, THEN conjunct2, THEN conjunct2,
        THEN conjunct1] l n c
    by (simp add: env0_sel zu_digit)
  have r2: "MakeFromSourceWithStructs (env0 plain_fs_main) [x_attr] 4 [bad_varying] ''vs'' ''fs'' None
     kPremul_SkAlphaType = ([], Inr (None, dquote @ ''a b'' @ dquote @ '' is not a valid varying name.''))"
    using t [where varyings = "[bad_varying]" and vpre = "[]" and v = bad_varying and vpost = "[]",
        THEN conjunct2, THEN conjunct2, THEN conjunct2, THEN conjunct2, THEN conjunct1] l n
      check_name_varyings
    by (simp add: env0_sel varying_sel c_str_examples)
  from l n c r1 r2 show ?thesis by (intro conjI)
qed

theorem construction_stage_order_counterexample:
  "fst (check_vertex_offsets_and_stride (env0 plain_fs_main) [x_attr] 4) \<and>
   check_name (attr_name x_attr) \<and>
   bad_varying \<in> set seven_varyings \<and>
   \<not> check_name (var_name bad_varying) \<and>
   SkCustomMeshSpecification_Make (env0 plain_fs_main) [x_attr] 4 seven_varyings ''vs'' ''fs'' None
     kPremul_SkAlphaType = ([], Inr (None, ''A maximum of 6 varyings is allowed.'')) \<and>
   snd (SkCustomMeshSpecification_Make (env0 plain_fs_main) [x_attr] 4 seven_varyings ''vs'' ''fs''
          None kPremul_SkAlphaType) \<noteq>
     Inr (None, dquote @ ''a b'' @ dquote @ '' is not a valid varying name.'')"
proof -
  have l: "fst (check_vertex_offsets_and_stride (env0 plain_fs_main) [x_attr] 4)"
    by (simp add: layout_x)
  have n: "\<forall>a\<in>set [x_attr]. check_name (attr_name a)"
    by (simp add: x_attr_sel check_name_examples)
  have c: "unat (kMaxVaryings (env0 plain_fs_main)) < length seven_varyings"
    by (simp add: env0_sel seven_varyings_facts)
  have r: "SkCustomMeshSpecification_Make (env0 plain_fs_main) [x_attr] 4 seven_varyings ''vs'' ''fs'' None
     kPremul_SkAlphaType = ([], Inr (None, ''A maximum of 6 varyings is allowed.''))"
    unfolding SkCustomMeshSpecification_Make_def
    using Make_varying_count_failure [OF l n c] by (simp add: env0_sel zu_digit)
  show ?thesis
    using l n r check_name_varyings seven_varyings_facts by (simp add: varying_sel)
qed

section \<open>Invalid names\<close>

text \<open>
  C8, as amended. When some attribute or varying name is invalid, the construction
  returns a null specification with a non-empty message and makes no call to the
  compiler, and the result is the same whatever the compiler is. The message is the
  naming error of the first invalid attribute name when the layout is valid, and the
  naming error of the first invalid varying name when the layout is valid, every
  attribute name is valid and there are at most \<open>kMaxVaryings\<close> varyings; otherwise it
  is the error of the layout, when the layout is invalid, or of the number of varyings,
  when the layout and the attribute names are valid and there are more than
  \<open>kMaxVaryings\<close> varyings. A naming error prints the name as a C string, up to its
  first NUL. A name that is empty or has a space, a semicolon or any character other than
  an underscore or an ASCII letter or digit is invalid.
\<close>

theorem invalid_name_rejected_before_compiling:
  "((\<exists>a\<in>set attributes. \<not> check_name (attr_name a)) \<or>
    (\<exists>v\<in>set varyings. \<not> check_name (var_name v)) \<longrightarrow>
      (\<exists>msg. msg \<noteq> [] \<and>
         SkCustomMeshSpecification_Make K attributes stride varyings vs fs cs at =
           ([], Inr (None, msg)) \<and>
         SkCustomMeshSpecification_Make
           (K\<lparr>convertProgram := compiler, CallsColorTransformIntrinsics := intrinsics\<rparr>)
           attributes stride varyings vs fs cs at = ([], Inr (None, msg)))) \<and>
   (fst (check_vertex_offsets_and_stride K attributes stride) \<and>
    attributes = pre @ a # post \<and> (\<forall>b\<in>set pre. check_name (attr_name b)) \<and>
    \<not> check_name (attr_name a) \<longrightarrow>
      SkCustomMeshSpecification_Make K attributes stride varyings vs fs cs at =
        ([], Inr (None, dquote @ c_str (attr_name a) @ dquote @ '' is not a valid attribute name.''))) \<and>
   (fst (check_vertex_offsets_and_stride K attributes stride) \<and>
    (\<forall>b\<in>set attributes. check_name (attr_name b)) \<and>
    length varyings \<le> unat (kMaxVaryings K) \<and>
    varyings = vpre @ v # vpost \<and> (\<forall>w\<in>set vpre. check_name (var_name w)) \<and>
    \<not> check_name (var_name v) \<longrightarrow>
      SkCustomMeshSpecification_Make K attributes stride varyings vs fs cs at =
        ([], Inr (None, dquote @ c_str (var_name v) @ dquote @ '' is not a valid varying name.''))) \<and>
   (\<not> fst (check_vertex_offsets_and_stride K attributes stride) \<longrightarrow>
      SkCustomMeshSpecification_Make K attributes stride varyings vs fs cs at =
        ([], Inr (None, snd (check_vertex_offsets_and_stride K attributes stride))) \<and>
      snd (check_vertex_offsets_and_stride K attributes stride) \<noteq> []) \<and>
   (fst (check_vertex_offsets_and_stride K attributes stride) \<and>
    (\<forall>b\<in>set attributes. check_name (attr_name b)) \<and>
    unat (kMaxVaryings K) < length varyings \<longrightarrow>
      SkCustomMeshSpecification_Make K attributes stride varyings vs fs cs at =
        ([], Inr (None, ''A maximum of '' @ zu (kMaxVaryings K) @ '' varyings is allowed.''))) \<and>
   (name = [] \<or> CHR '' '' \<in> set name \<or> CHR '';'' \<in> set name \<or>
    (\<exists>c\<in>set name. c \<noteq> CHR ''_'' \<and> \<not> isalnum_classic c) \<longrightarrow> \<not> check_name name)"
    (is "?C1 \<and> ?C2 \<and> ?C3 \<and> ?C5 \<and> ?C6 \<and> ?C4")
proof -
  have c1: ?C1
    unfolding SkCustomMeshSpecification_Make_def
    by (rule impI) (rule invalid_name_no_compile)
  have c2: ?C2
    unfolding SkCustomMeshSpecification_Make_def
    by (intro impI, elim conjE) (rule Make_attribute_name_failure)
  have c3: ?C3
    unfolding SkCustomMeshSpecification_Make_def
    by (intro impI, elim conjE) (rule Make_varying_name_failure)
  have c5: ?C5
    unfolding SkCustomMeshSpecification_Make_def
    by (simp add: Make_layout_failure layout_message)
  have c6: ?C6
    unfolding SkCustomMeshSpecification_Make_def
    by (intro impI, elim conjE) (rule Make_varying_count_failure)
  have "\<not> isalnum_classic CHR '' ''" "\<not> isalnum_classic CHR '';''"
    by (simp_all add: isalnum_classic_def)
  then have c4: ?C4
    by (auto simp: check_name_iff)
  show ?thesis
    by (rule conjI [OF c1 conjI [OF c2 conjI [OF c3 conjI [OF c5 conjI [OF c6 c4]]]]])
qed

theorem invalid_name_rejected_before_compiling_witness:
  "fst (check_vertex_offsets_and_stride (env0 plain_fs_main) [bad_attr] 4) \<and>
   \<not> check_name (attr_name bad_attr) \<and>
   SkCustomMeshSpecification_Make (env0 plain_fs_main) [bad_attr] 4 [] ''vs'' ''fs'' None
     kPremul_SkAlphaType =
     ([], Inr (None, dquote @ ''a;b'' @ dquote @ '' is not a valid attribute name.'')) \<and>
   fst (check_vertex_offsets_and_stride (env0 plain_fs_main) [nul_attr] 4) \<and>
   \<not> check_name (attr_name nul_attr) \<and>
   SkCustomMeshSpecification_Make (env0 plain_fs_main) [nul_attr] 4 [] ''vs'' ''fs'' None
     kPremul_SkAlphaType =
     ([], Inr (None, dquote @ ''a'' @ dquote @ '' is not a valid attribute name.'')) \<and>
   fst (check_vertex_offsets_and_stride (env0 plain_fs_main) [x_attr] 4) \<and>
   check_name (attr_name x_attr) \<and>
   unat (kMaxVaryings (env0 plain_fs_main)) < length seven_varyings \<and>
   SkCustomMeshSpecification_Make (env0 plain_fs_main) [x_attr] 4 seven_varyings ''vs'' ''fs''
     None kPremul_SkAlphaType = ([], Inr (None, ''A maximum of 6 varyings is allowed.''))"
proof -
  note t = invalid_name_rejected_before_compiling
    [where K = "env0 plain_fs_main" and stride = 4 and vs = "''vs''" and fs = "''fs''"
       and cs = None and at = kPremul_SkAlphaType]
  have l: "fst (check_vertex_offsets_and_stride (env0 plain_fs_main) [bad_attr] 4)"
    by (simp add: layout_bad)
  have n: "\<not> check_name (attr_name bad_attr)"
    by (simp add: bad_attr_sel check_name_examples)
  have r: "SkCustomMeshSpecification_Make (env0 plain_fs_main) [bad_attr] 4 [] ''vs'' ''fs'' None
     kPremul_SkAlphaType =
     ([], Inr (None, dquote @ ''a;b'' @ dquote @ '' is not a valid attribute name.''))"
    using t [where attributes = "[bad_attr]" and varyings = "[]" and pre = "[]" and a = bad_attr
        and post = "[]", THEN conjunct2, THEN conjunct1] l n
    by (simp add: bad_attr_sel c_str_examples)
  have l2: "fst (check_vertex_offsets_and_stride (env0 plain_fs_main) [nul_attr] 4)"
    by (simp add: nul_attr_facts)
  have n2: "\<not> check_name (attr_name nul_attr)"
    by (rule nul_attr_facts)
  have r2: "SkCustomMeshSpecification_Make (env0 plain_fs_main) [nul_attr] 4 [] ''vs'' ''fs'' None
     kPremul_SkAlphaType =
     ([], Inr (None, dquote @ ''a'' @ dquote @ '' is not a valid attribute name.''))"
    using t [where attributes = "[nul_attr]" and varyings = "[]" and pre = "[]" and a = nul_attr
        and post = "[]", THEN conjunct2, THEN conjunct1] l2 n2
    by (simp add: nul_attr_facts(1) c_str_def)
  have l3: "fst (check_vertex_offsets_and_stride (env0 plain_fs_main) [x_attr] 4)"
    by (simp add: layout_x)
  have n3: "check_name (attr_name x_attr)"
    by (simp add: x_attr_sel check_name_examples)
  have c3: "unat (kMaxVaryings (env0 plain_fs_main)) < length seven_varyings"
    by (simp add: env0_sel seven_varyings_facts)
  have r3: "SkCustomMeshSpecification_Make (env0 plain_fs_main) [x_attr] 4 seven_varyings ''vs'' ''fs''
     None kPremul_SkAlphaType = ([], Inr (None, ''A maximum of 6 varyings is allowed.''))"
    using t [where attributes = "[x_attr]" and varyings = seven_varyings, THEN conjunct2,
        THEN conjunct2, THEN conjunct2, THEN conjunct2, THEN conjunct1] l3 n3 c3
    by (simp add: env0_sel zu_digit)
  from l n r l2 n2 r2 l3 n3 c3 r3 show ?thesis by (intro conjI)
qed

theorem invalid_name_rejected_before_compiling_counterexample:
  "\<not> check_name (attr_name bad_attr) \<and>
   SkCustomMeshSpecification_Make (env0 plain_fs_main) [bad_attr] 0 [] ''vs'' ''fs'' None
     kPremul_SkAlphaType =
     ([], Inr (None, ''Vertex stride must be a non-zero multiple of 4.'')) \<and>
   snd (SkCustomMeshSpecification_Make (env0 plain_fs_main) [bad_attr] 0 [] ''vs'' ''fs'' None
          kPremul_SkAlphaType) \<noteq>
     Inr (None, dquote @ ''a;b'' @ dquote @ '' is not a valid attribute name.'')"
proof -
  have n: "\<not> check_name (attr_name bad_attr)"
    by (simp add: bad_attr_sel check_name_examples)
  have "\<not> fst (check_vertex_offsets_and_stride (env0 plain_fs_main) [bad_attr] 0)"
    by (simp add: layout_bad_zero)
  then have r: "SkCustomMeshSpecification_Make (env0 plain_fs_main) [bad_attr] 0 [] ''vs'' ''fs'' None
     kPremul_SkAlphaType =
     ([], Inr (None, ''Vertex stride must be a non-zero multiple of 4.''))"
    unfolding SkCustomMeshSpecification_Make_def
    by (simp add: Make_layout_failure layout_bad_zero)
  show ?thesis
    using n r by (simp add: bad_attr_sel)
qed

section \<open>The mesh factories\<close>

lemma validate_fault:
  "validate m = Inl f \<Longrightarrow> f = DivisionByZero \<and> (\<exists>s. fSpec m = Some s \<and> fStride s = 0)"
  by (auto simp: validate_def SkSafeMath_mul_def SkSafeMath_add_def
      split: option.splits if_splits)

lemma validate_total:
  assumes "\<And>s. fSpec m = Some s \<Longrightarrow> fStride s \<noteq> 0"
  shows "validate m = Inr True \<or> validate m = Inr False"
proof (cases "validate m")
  case (Inl f)
  then show ?thesis using validate_fault [of m f] assms by auto
next
  case (Inr b)
  then show ?thesis by (cases b) simp_all
qed

lemma validate_default: "validate SkCustomMesh_default = Inr False"
  by (simp add: validate_def SkCustomMesh_default_def)

lemma validate_true_spec: "validate m = Inr True \<Longrightarrow> fSpec m \<noteq> None"
  by (auto simp: validate_def split: option.splits)

lemma isValid_valid: "validate m = Inr True \<Longrightarrow> isValid dbg m = Inr True"
  using validate_true_spec [of m] by (auto simp: isValid_def)

lemma default_sel:
  "fSpec SkCustomMesh_default = None" "fVB SkCustomMesh_default = None"
  "fIB SkCustomMesh_default = None" "fVCount SkCustomMesh_default = 0"
  "fVOffset SkCustomMesh_default = 0" "fICount SkCustomMesh_default = 0"
  "fIOffset SkCustomMesh_default = 0"
  by (simp_all add: SkCustomMesh_default_def)

lemma isValid_default: "isValid dbg SkCustomMesh_default = Inr False"
  by (simp add: isValid_def Let_def validate_default default_sel)

lemma built_stride:
  assumes "snd (MakeFromSourceWithStructs K attributes stride varyings vs fs cs at) = Inr (Some s, e)"
  shows "fStride s = stride" and "stride \<noteq> 0"
proof -
  from assms obtain vsP fsP where
    "finish_specification K attributes stride varyings vsP fsP cs at = Inr (Some s, e)"
    by (rule success_stages_pass)
  then obtain ct hlc where
    "get_fs_color_type_and_local_coords K fsP = Inr (ct, hlc)" "e = []"
    "s = SkCustomMeshSpecification_ctor K attributes stride varyings vsP fsP ct hlc
           (if ct = ColorType_kNone then None else cs)
           (if ct = ColorType_kNone then kPremul_SkAlphaType else at)"
    "ct \<noteq> ColorType_kNone \<longrightarrow> cs \<noteq> None \<and> at \<noteq> kUnknown_SkAlphaType"
    by (rule finish_specification_success)
  then show "fStride s = stride" by (simp add: ctor_fields)
  from MakeFromSourceWithStructs_success(1) [OF assms] show "stride \<noteq> 0"
    by (auto simp: check_vertex_offsets_and_stride_def RETURN_ERROR_def split: if_splits)
qed

lemma SkCustomMesh_Make_result:
  assumes "\<And>s. spec = Some s \<Longrightarrow> fStride s \<noteq> 0"
  shows "SkCustomMesh_Make spec mode vb vertexCount vertexOffset bounds =
     Inr (if validate
               \<lparr>fSpec = spec, fMode = mode, fVB = vb, fIB = None, fVCount = vertexCount,
                fVOffset = vertexOffset, fICount = 0, fIOffset = 0, fBounds = bounds\<rparr> = Inr True
          then \<lparr>fSpec = spec, fMode = mode, fVB = vb, fIB = None, fVCount = vertexCount,
                fVOffset = vertexOffset, fICount = 0, fIOffset = 0, fBounds = bounds\<rparr>
          else SkCustomMesh_default)"
proof -
  let ?cm = "\<lparr>fSpec = spec, fMode = mode, fVB = vb, fIB = None, fVCount = vertexCount,
                fVOffset = vertexOffset, fICount = 0, fIOffset = 0, fBounds = bounds\<rparr>"
  have cm: "SkCustomMesh_default
            \<lparr>fSpec := spec, fMode := mode, fVB := vb, fVCount := vertexCount,
             fVOffset := vertexOffset, fBounds := bounds\<rparr> = ?cm"
    by (simp add: SkCustomMesh_default_def)
  have "validate ?cm = Inr True \<or> validate ?cm = Inr False"
    using assms by (intro validate_total) simp
  then show ?thesis
    unfolding SkCustomMesh_Make_def cm by (auto simp: Let_def)
qed

lemma SkCustomMesh_MakeIndexed_result:
  assumes "\<And>s. spec = Some s \<Longrightarrow> fStride s \<noteq> 0"
  shows "SkCustomMesh_MakeIndexed spec mode vb vertexCount vertexOffset ib indexCount indexOffset bounds =
     Inr (if validate
               \<lparr>fSpec = spec, fMode = mode, fVB = vb, fIB = ib, fVCount = vertexCount,
                fVOffset = vertexOffset, fICount = indexCount, fIOffset = indexOffset,
                fBounds = bounds\<rparr> = Inr True
          then \<lparr>fSpec = spec, fMode = mode, fVB = vb, fIB = ib, fVCount = vertexCount,
                fVOffset = vertexOffset, fICount = indexCount, fIOffset = indexOffset,
                fBounds = bounds\<rparr>
          else SkCustomMesh_default)"
proof -
  let ?cm = "\<lparr>fSpec = spec, fMode = mode, fVB = vb, fIB = ib, fVCount = vertexCount,
                fVOffset = vertexOffset, fICount = indexCount, fIOffset = indexOffset,
                fBounds = bounds\<rparr>"
  have cm: "SkCustomMesh_default
            \<lparr>fSpec := spec, fMode := mode, fVB := vb, fVCount := vertexCount,
             fVOffset := vertexOffset, fIB := ib, fICount := indexCount,
             fIOffset := indexOffset, fBounds := bounds\<rparr> = ?cm"
    by (simp add: SkCustomMesh_default_def)
  have "validate ?cm = Inr True \<or> validate ?cm = Inr False"
    using assms by (intro validate_total) simp
  then show ?thesis
    unfolding SkCustomMesh_MakeIndexed_def cm by (auto simp: Let_def)
qed

section \<open>Meshes are valid or the sentinel\<close>

text \<open>
  C9. For a specification reference that is null or has a non-zero stride (every built
  specification has one), \<open>Make\<close> and \<open>MakeIndexed\<close> always return a mesh: the mesh
  with all the arguments in its fields when that mesh passes \<open>validate\<close>, and otherwise
  the default-constructed mesh. The default mesh has a null specification, no buffers and
  zero counts and offsets, and does not pass validation. So a mesh that a factory returns
  passes validation or is the default mesh, and \<open>isValid\<close> returns true on it exactly
  when it passes validation, in debug builds (where the assertion of \<open>isValid\<close> holds)
  and in release builds.
\<close>

theorem mesh_factories:
  assumes "\<And>s. spec = Some s \<Longrightarrow> fStride s \<noteq> 0"
  shows
  "SkCustomMesh_Make spec mode vb vertexCount vertexOffset bounds =
     Inr (if validate
               \<lparr>fSpec = spec, fMode = mode, fVB = vb, fIB = None, fVCount = vertexCount,
                fVOffset = vertexOffset, fICount = 0, fIOffset = 0, fBounds = bounds\<rparr> = Inr True
          then \<lparr>fSpec = spec, fMode = mode, fVB = vb, fIB = None, fVCount = vertexCount,
                fVOffset = vertexOffset, fICount = 0, fIOffset = 0, fBounds = bounds\<rparr>
          else SkCustomMesh_default) \<and>
   SkCustomMesh_MakeIndexed spec mode vb vertexCount vertexOffset ib indexCount indexOffset bounds =
     Inr (if validate
               \<lparr>fSpec = spec, fMode = mode, fVB = vb, fIB = ib, fVCount = vertexCount,
                fVOffset = vertexOffset, fICount = indexCount, fIOffset = indexOffset,
                fBounds = bounds\<rparr> = Inr True
          then \<lparr>fSpec = spec, fMode = mode, fVB = vb, fIB = ib, fVCount = vertexCount,
                fVOffset = vertexOffset, fICount = indexCount, fIOffset = indexOffset,
                fBounds = bounds\<rparr>
          else SkCustomMesh_default) \<and>
   (SkCustomMesh_Make spec mode vb vertexCount vertexOffset bounds =
      Inr (m :: ('h, 's::zero) SkCustomMesh) \<or>
    SkCustomMesh_MakeIndexed spec mode vb vertexCount vertexOffset ib indexCount indexOffset bounds =
      Inr m \<longrightarrow>
      (validate m = Inr True \<or> m = SkCustomMesh_default) \<and>
      (validate m = Inr True \<or> validate m = Inr False) \<and>
      isValid dbg m = Inr (validate m = Inr True)) \<and>
   validate (SkCustomMesh_default :: ('h, 's::zero) SkCustomMesh) = Inr False \<and>
   isValid dbg (SkCustomMesh_default :: ('h, 's) SkCustomMesh) = Inr False \<and>
   fSpec (SkCustomMesh_default :: ('h, 's) SkCustomMesh) = None \<and>
   fVB (SkCustomMesh_default :: ('h, 's) SkCustomMesh) = None \<and>
   fIB (SkCustomMesh_default :: ('h, 's) SkCustomMesh) = None \<and>
   fVCount (SkCustomMesh_default :: ('h, 's) SkCustomMesh) = 0 \<and>
   fVOffset (SkCustomMesh_default :: ('h, 's) SkCustomMesh) = 0 \<and>
   fICount (SkCustomMesh_default :: ('h, 's) SkCustomMesh) = 0 \<and>
   fIOffset (SkCustomMesh_default :: ('h, 's) SkCustomMesh) = 0"
    (is "?A \<and> ?B \<and> ?C \<and> ?D")
proof -
  have a: ?A using assms by (rule SkCustomMesh_Make_result)
  have b: ?B using assms by (rule SkCustomMesh_MakeIndexed_result)
  have v: "(validate m = Inr True \<or> m = SkCustomMesh_default) \<and>
      (validate m = Inr True \<or> validate m = Inr False) \<and>
      isValid dbg m = Inr (validate m = Inr True)"
    if "m = (if validate cm = Inr True then cm else SkCustomMesh_default)"
    for cm :: "('h, 's) SkCustomMesh"
  proof (cases "validate cm = Inr True")
    case True
    with that have "validate m = Inr True" by simp
    then show ?thesis by (simp add: isValid_valid)
  next
    case False
    with that have "m = SkCustomMesh_default" by simp
    then show ?thesis by (simp add: isValid_default validate_default)
  qed
  have c: ?C
  proof (intro impI, elim disjE)
    assume "SkCustomMesh_Make spec mode vb vertexCount vertexOffset bounds = Inr m"
    with a have "m = (if validate
               \<lparr>fSpec = spec, fMode = mode, fVB = vb, fIB = None, fVCount = vertexCount,
                fVOffset = vertexOffset, fICount = 0, fIOffset = 0, fBounds = bounds\<rparr> = Inr True
          then \<lparr>fSpec = spec, fMode = mode, fVB = vb, fIB = None, fVCount = vertexCount,
                fVOffset = vertexOffset, fICount = 0, fIOffset = 0, fBounds = bounds\<rparr>
          else SkCustomMesh_default)"
      by simp
    then show "(validate m = Inr True \<or> m = SkCustomMesh_default) \<and>
      (validate m = Inr True \<or> validate m = Inr False) \<and>
      isValid dbg m = Inr (validate m = Inr True)"
      by (rule v)
  next
    assume "SkCustomMesh_MakeIndexed spec mode vb vertexCount vertexOffset ib indexCount
      indexOffset bounds = Inr m"
    with b have "m = (if validate
               \<lparr>fSpec = spec, fMode = mode, fVB = vb, fIB = ib, fVCount = vertexCount,
                fVOffset = vertexOffset, fICount = indexCount, fIOffset = indexOffset,
                fBounds = bounds\<rparr> = Inr True
          then \<lparr>fSpec = spec, fMode = mode, fVB = vb, fIB = ib, fVCount = vertexCount,
                fVOffset = vertexOffset, fICount = indexCount, fIOffset = indexOffset,
                fBounds = bounds\<rparr>
          else SkCustomMesh_default)"
      by simp
    then show "(validate m = Inr True \<or> m = SkCustomMesh_default) \<and>
      (validate m = Inr True \<or> validate m = Inr False) \<and>
      isValid dbg m = Inr (validate m = Inr True)"
      by (rule v)
  qed
  have d: ?D
    by (simp add: validate_default isValid_default default_sel)
  show ?thesis by (rule conjI [OF a conjI [OF b conjI [OF c d]]])
qed

theorem mesh_factories_witness:
  "fStride plain_spec \<noteq> 0 \<and>
   SkCustomMesh_Make (Some plain_spec) kTriangles (Some \<lparr>vb_size = 12\<rparr>) 3 0 SkRect_MakeEmpty =
     Inr triangle_mesh \<and>
   SkCustomMesh_Make (Some plain_spec) kTriangles (Some \<lparr>vb_size = 12\<rparr>) 2 0
     (SkRect_MakeEmpty :: int SkRect) = Inr SkCustomMesh_default \<and>
   isValid True triangle_mesh = Inr True \<and>
   isValid True (SkCustomMesh_default :: (32, int) SkCustomMesh) = Inr False"
proof -
  have s: "fStride s \<noteq> 0" if "Some plain_spec = Some s" for s
    using that by (auto simp: example_strides)
  note t = mesh_factories [where spec = "Some plain_spec" and 'h = 32 and 's = int, OF s]
  have v: "validate triangle_mesh = Inr True"
    by (simp add: triangle_mesh_record validate_example example_strides)
  have m1: "SkCustomMesh_Make (Some plain_spec) kTriangles (Some \<lparr>vb_size = 12\<rparr>) 3 0 SkRect_MakeEmpty =
     Inr triangle_mesh"
    using t [where mode = kTriangles and vb = "Some \<lparr>vb_size = 12\<rparr>" and vertexCount = 3
        and vertexOffset = 0 and bounds = SkRect_MakeEmpty, THEN conjunct1]
    by (simp add: triangle_mesh_record validate_example example_strides)
  have m2: "SkCustomMesh_Make (Some plain_spec) kTriangles (Some \<lparr>vb_size = 12\<rparr>) 2 0
     (SkRect_MakeEmpty :: int SkRect) = Inr SkCustomMesh_default"
    using t [where mode = kTriangles and vb = "Some \<lparr>vb_size = 12\<rparr>" and vertexCount = 2
        and vertexOffset = 0 and bounds = SkRect_MakeEmpty, THEN conjunct1]
    by (simp add: validate_example example_strides)
  have i1: "isValid True triangle_mesh = Inr True"
    using t [where mode = kTriangles and vb = "Some \<lparr>vb_size = 12\<rparr>" and vertexCount = 3
        and vertexOffset = 0 and bounds = SkRect_MakeEmpty and m = triangle_mesh and dbg = True,
        THEN conjunct2, THEN conjunct2, THEN conjunct1] m1 v
    by simp
  have i2: "isValid True (SkCustomMesh_default :: (32, int) SkCustomMesh) = Inr False"
    using t [where dbg = True, THEN conjunct2, THEN conjunct2, THEN conjunct2] by simp
  have "fStride plain_spec \<noteq> 0" by (simp add: example_strides)
  with m1 m2 i1 i2 show ?thesis by (intro conjI)
qed

section \<open>The stride of a built specification\<close>

text \<open>
  C10. Whatever \<open>MakeFromSourceWithStructs\<close> or \<open>Make\<close> returns as a specification, it
  is null or its stride is the stride that passed layout validation, which is not zero.
  Hence for every mesh that refers to it, \<open>validate\<close> returns a truth value and never
  reaches the division by zero, and the mesh factories return a mesh. The only fault of
  \<open>validate\<close> is the division by zero, and it needs a specification with stride zero.
\<close>

theorem stride_of_built_specification:
  "(snd (MakeFromSourceWithStructs K attributes stride varyings vs fs cs at) = Inr (sp, e) \<or>
    snd (SkCustomMeshSpecification_Make K attributes stride varyings vs fs cs at) = Inr (sp, e) \<longrightarrow>
      (sp = None \<or> (\<exists>s. sp = Some s \<and> fStride s = stride \<and> fStride s \<noteq> 0)) \<and>
      (fSpec m = sp \<longrightarrow> validate m = Inr True \<or> validate m = Inr False) \<and>
      (\<exists>cm. SkCustomMesh_Make sp mode vb vertexCount vertexOffset bounds = Inr cm) \<and>
      (\<exists>cm. SkCustomMesh_MakeIndexed sp mode vb vertexCount vertexOffset ib indexCount
               indexOffset bounds = Inr cm)) \<and>
   (validate m = Inl f \<longrightarrow> f = DivisionByZero \<and> (\<exists>s. fSpec m = Some s \<and> fStride s = 0))"
proof -
  have r: "(sp = None \<or> (\<exists>s. sp = Some s \<and> fStride s = stride \<and> fStride s \<noteq> 0)) \<and>
      (fSpec m = sp \<longrightarrow> validate m = Inr True \<or> validate m = Inr False) \<and>
      (\<exists>cm. SkCustomMesh_Make sp mode vb vertexCount vertexOffset bounds = Inr cm) \<and>
      (\<exists>cm. SkCustomMesh_MakeIndexed sp mode vb vertexCount vertexOffset ib indexCount
               indexOffset bounds = Inr cm)"
    if a: "snd (MakeFromSourceWithStructs K attributes stride varyings vs fs cs at) = Inr (sp, e)"
    for vs fs
  proof -
    have nz: "fStride s = stride \<and> fStride s \<noteq> 0" if "sp = Some s" for s
      using built_stride [of K attributes stride varyings vs fs cs at s e] a that by simp
    have p1: "sp = None \<or> (\<exists>s. sp = Some s \<and> fStride s = stride \<and> fStride s \<noteq> 0)"
    proof (cases sp)
      case None
      then show ?thesis by simp
    next
      case (Some s)
      with nz [OF Some] show ?thesis by blast
    qed
    have p2: "fSpec m = sp \<longrightarrow> validate m = Inr True \<or> validate m = Inr False"
    proof
      assume eq: "fSpec m = sp"
      have "fStride s \<noteq> 0" if "fSpec m = Some s" for s
      proof -
        from that eq have "sp = Some s" by simp
        from nz [OF this] show ?thesis by blast
      qed
      then show "validate m = Inr True \<or> validate m = Inr False"
        by (rule validate_total)
    qed
    have nz': "fStride s \<noteq> 0" if "sp = Some s" for s
      using nz [OF that] by blast
    have p3: "\<exists>cm. SkCustomMesh_Make sp mode vb vertexCount vertexOffset bounds = Inr cm"
      using SkCustomMesh_Make_result [of sp, OF nz'] by blast
    have p4: "\<exists>cm. SkCustomMesh_MakeIndexed sp mode vb vertexCount vertexOffset ib indexCount
               indexOffset bounds = Inr cm"
      using SkCustomMesh_MakeIndexed_result [of sp, OF nz'] by blast
    from p1 p2 p3 p4 show ?thesis by (intro conjI)
  qed
  have v: "validate m = Inl f \<longrightarrow> f = DivisionByZero \<and> (\<exists>s. fSpec m = Some s \<and> fStride s = 0)"
    using validate_fault [of m f] by blast
  have main: "snd (MakeFromSourceWithStructs K attributes stride varyings vs fs cs at) = Inr (sp, e) \<or>
    snd (SkCustomMeshSpecification_Make K attributes stride varyings vs fs cs at) = Inr (sp, e) \<longrightarrow>
      (sp = None \<or> (\<exists>s. sp = Some s \<and> fStride s = stride \<and> fStride s \<noteq> 0)) \<and>
      (fSpec m = sp \<longrightarrow> validate m = Inr True \<or> validate m = Inr False) \<and>
      (\<exists>cm. SkCustomMesh_Make sp mode vb vertexCount vertexOffset bounds = Inr cm) \<and>
      (\<exists>cm. SkCustomMesh_MakeIndexed sp mode vb vertexCount vertexOffset ib indexCount
               indexOffset bounds = Inr cm)"
  proof (rule impI, erule disjE)
    assume "snd (MakeFromSourceWithStructs K attributes stride varyings vs fs cs at) = Inr (sp, e)"
    then show "(sp = None \<or> (\<exists>s. sp = Some s \<and> fStride s = stride \<and> fStride s \<noteq> 0)) \<and>
      (fSpec m = sp \<longrightarrow> validate m = Inr True \<or> validate m = Inr False) \<and>
      (\<exists>cm. SkCustomMesh_Make sp mode vb vertexCount vertexOffset bounds = Inr cm) \<and>
      (\<exists>cm. SkCustomMesh_MakeIndexed sp mode vb vertexCount vertexOffset ib indexCount
               indexOffset bounds = Inr cm)"
      by (rule r)
  next
    assume "snd (SkCustomMeshSpecification_Make K attributes stride varyings vs fs cs at) = Inr (sp, e)"
    then have "snd (MakeFromSourceWithStructs K attributes stride varyings
        (fullVS attributes varyings vs) (fullFS varyings fs) cs at) = Inr (sp, e)"
      by (simp only: SkCustomMeshSpecification_Make_def)
    then show "(sp = None \<or> (\<exists>s. sp = Some s \<and> fStride s = stride \<and> fStride s \<noteq> 0)) \<and>
      (fSpec m = sp \<longrightarrow> validate m = Inr True \<or> validate m = Inr False) \<and>
      (\<exists>cm. SkCustomMesh_Make sp mode vb vertexCount vertexOffset bounds = Inr cm) \<and>
      (\<exists>cm. SkCustomMesh_MakeIndexed sp mode vb vertexCount vertexOffset ib indexCount
               indexOffset bounds = Inr cm)"
      by (rule r)
  qed
  show ?thesis by (rule conjI [OF main v])
qed

theorem stride_of_built_specification_witness:
  "snd (SkCustomMeshSpecification_Make (env0 plain_fs_main) [x_attr] 4 [] ''vs'' ''fs'' None
          kPremul_SkAlphaType) = Inr (Some made_spec, []) \<and>
   fStride made_spec = 4 \<and>
   fSpec (triangle_mesh\<lparr>fSpec := Some made_spec, fVOffset := 1\<rparr>) = Some made_spec \<and>
   validate (triangle_mesh\<lparr>fSpec := Some made_spec, fVOffset := 1\<rparr>) \<noteq> Inl DivisionByZero"
proof -
  have mk: "snd (SkCustomMeshSpecification_Make (env0 plain_fs_main) [x_attr] 4 [] ''vs'' ''fs'' None
          kPremul_SkAlphaType) = Inr (Some made_spec, [])"
    by (simp add: made_spec_Make)
  have sp: "fSpec (triangle_mesh\<lparr>fSpec := Some made_spec, fVOffset := 1\<rparr>) = Some made_spec"
    by simp
  note t = stride_of_built_specification
    [where K = "env0 plain_fs_main" and attributes = "[x_attr]" and stride = 4
       and varyings = "[]" and vs = "''vs''" and fs = "''fs''" and cs = None
       and at = kPremul_SkAlphaType and sp = "Some made_spec" and e = "[]"
       and m = "triangle_mesh\<lparr>fSpec := Some made_spec, fVOffset := 1\<rparr>"
       and mode = kTriangles and vb = None and vertexCount = 0 and vertexOffset = 0
       and bounds = "SkRect_MakeEmpty :: int SkRect" and ib = None and indexCount = 0
       and indexOffset = 0,
     THEN conjunct1]
  from t mk have st: "fStride made_spec = 4" by auto
  from t mk sp have
    "validate (triangle_mesh\<lparr>fSpec := Some made_spec, fVOffset := 1\<rparr>) = Inr True \<or>
     validate (triangle_mesh\<lparr>fSpec := Some made_spec, fVOffset := 1\<rparr>) = Inr False"
    by blast
  then have nf: "validate (triangle_mesh\<lparr>fSpec := Some made_spec, fVOffset := 1\<rparr>) \<noteq>
      Inl DivisionByZero"
    by auto
  from mk st sp nf show ?thesis by (intro conjI)
qed

end
